theory Spec2Isabelle
  imports Complex_Main "HOL-Library.Sublist" "HOL-Library.AList"
begin

chapter \<open>Patient-Builder: the prompt publisher of \<open>Ex.py\<close>\<close>

text \<open>
  A shallow embedding of \<open>src/Ex.py\<close>: the text segmenter
  (\<open>_split_into_segments\<close>), the message builder (\<open>_parse_markdown_segments\<close> and the
  first half of \<open>publish_prompt_in_folder\<close>), the publisher's chain of delivery attempts
  (the second half of \<open>publish_prompt_in_folder\<close>) and the folder resolver
  (\<open>list_children\<close>, \<open>create_folder\<close>, \<open>_extract_folder_id_from_response\<close>,
  \<open>ensure_patient_folder\<close>).

  A Python \<open>str\<close> is modelled as a \<open>string\<close>; a \<open>char\<close> stands for the code point of
  the same number, so the model covers the texts whose code points are below 256.
  Console output (\<open>print\<close>, the \<open>debug\<close> flag) is not modelled.
\<close>

section \<open>Python string operations\<close>

definition LF :: char where
  "LF = CHR 0x0A"

definition CR :: char where
  "CR = CHR 0x0D"

text \<open>
  \<open>str.isspace\<close> and the regular expression class \<open>\s\<close> agree on one character: the
  white space of Unicode, which below 256 is U+0009..U+000D, U+001C..U+0020, U+0085 and
  U+00A0.
\<close>

definition isspace :: "char \<Rightarrow> bool" where
  "isspace c = ((of_char c :: nat) \<in> {9, 10, 11, 12, 13, 28, 29, 30, 31, 32, 133, 160})"

text \<open>\<open>s.strip()\<close>\<close>

definition strip :: "string \<Rightarrow> string" where
  "strip s = rev (dropWhile isspace (rev (dropWhile isspace s)))"

text \<open>\<open>sep.join(xs)\<close>\<close>

fun join :: "string \<Rightarrow> string list \<Rightarrow> string" where
  "join sep [] = []"
| "join sep [x] = x"
| "join sep (x # y # ys) = x @ sep @ join sep (y # ys)"

text \<open>\<open>s.split("\n\n")\<close>: the pieces between the occurrences of two line feeds, found
  from the left without overlap. The result is never empty.\<close>

fun split_blank_lines :: "string \<Rightarrow> string list" where
  "split_blank_lines [] = [[]]"
| "split_blank_lines [c] = [[c]]"
| "split_blank_lines (c # d # cs) =
     (if c = LF \<and> d = LF then [] # split_blank_lines cs
      else (let r = split_blank_lines (d # cs) in (c # hd r) # tl r))"

text \<open>\<open>s.replace("\r\n", "\n")\<close> and \<open>s.replace("\r", "\n")\<close>\<close>

fun replace_crlf :: "string \<Rightarrow> string" where
  "replace_crlf [] = []"
| "replace_crlf [c] = [c]"
| "replace_crlf (c # d # cs) =
     (if c = CR \<and> d = LF then LF # replace_crlf cs else c # replace_crlf (d # cs))"

definition replace_cr :: "string \<Rightarrow> string" where
  "replace_cr s = map (\<lambda>c. if c = CR then LF else c) s"

text \<open>The part of a run of white space after its last line feed.\<close>

definition after_last_LF :: "string \<Rightarrow> string" where
  "after_last_LF ws = rev (takeWhile (\<lambda>c. c \<noteq> LF) (rev ws))"

section \<open>The segmenter\<close>

text \<open>
  One match of the regular expression \<open>\n\s*---+\s*\n\<close> at the start of \<open>s\<close>, and what
  follows the match. The first \<open>\s*\<close> takes the whole run of white space (a dash has to
  follow it), \<open>---+\<close> takes the whole run of dashes, three at least, and the last \<open>\s*\<close>
  gives back characters until a line feed follows it: the match ends after the last line
  feed of the white space behind the dashes.
\<close>

definition match_dash_break :: "string \<Rightarrow> string option" where
  "match_dash_break s =
     (case s of
        [] \<Rightarrow> None
      | c # s1 \<Rightarrow>
          if c \<noteq> LF then None
          else
            (let s2 = dropWhile isspace s1;
                 dashes = takeWhile (\<lambda>d. d = CHR ''-'') s2;
                 s3 = dropWhile (\<lambda>d. d = CHR ''-'') s2;
                 ws = takeWhile isspace s3;
                 s4 = dropWhile isspace s3
             in if length dashes < 3 then None
                else if LF \<notin> set ws then None
                else Some (after_last_LF ws @ s4)))"

lemma match_dash_break_shorter:
  assumes "match_dash_break s = Some r"
  shows "length r < length s"
proof (cases s)
  case Nil
  with assms show ?thesis by (simp add: match_dash_break_def)
next
  case (Cons c s1)
  define s2 where "s2 = dropWhile isspace s1"
  define s3 where "s3 = dropWhile (\<lambda>d. d = CHR ''-'') s2"
  have r: "r = after_last_LF (takeWhile isspace s3) @ dropWhile isspace s3"
    using assms Cons
    by (simp add: match_dash_break_def Let_def s2_def s3_def split: if_splits)
  have "length (after_last_LF (takeWhile isspace s3)) \<le> length (takeWhile isspace s3)"
    unfolding after_last_LF_def
    by (metis length_rev length_takeWhile_le)
  then have "length r \<le> length s3"
    unfolding r
    by (metis add_le_mono1 length_append takeWhile_dropWhile_id)
  also have "\<dots> \<le> length s2"
    unfolding s3_def by (rule length_dropWhile_le)
  also have "\<dots> \<le> length s1"
    unfolding s2_def by (rule length_dropWhile_le)
  finally show ?thesis using Cons by simp
qed

text \<open>\<open>re.split(r"\n\s*---+\s*\n", text)\<close>: the pieces between the matches, which are
  searched from the left, each search starting where the match before ended.\<close>

function re_split_dash :: "string \<Rightarrow> string list" where
  "re_split_dash [] = [[]]"
| "re_split_dash (c # cs) =
     (case match_dash_break (c # cs) of
        Some r \<Rightarrow> [] # re_split_dash r
      | None \<Rightarrow> (let ps = re_split_dash cs in (c # hd ps) # tl ps))"
  by pat_completeness auto
termination re_split_dash
  by (relation "measure length") (auto dest: match_dash_break_shorter)

text \<open>The loop \<open>for i in range(0, len(text), chunk_size)\<close> with its \<open>break\<close>; \<open>is\<close> are
  the values of \<open>i\<close> still to come.\<close>

definition chunk_size :: nat where
  "chunk_size = 1500"

definition chunk_starts :: "string \<Rightarrow> nat list" where
  "chunk_starts text = map (\<lambda>k. k * chunk_size) [0 ..< (length text + chunk_size - 1) div chunk_size]"

fun chunk_loop :: "string \<Rightarrow> nat list \<Rightarrow> string list \<Rightarrow> string list" where
  "chunk_loop text [] segments = segments"
| "chunk_loop text (i # is) segments =
     (let chunk = strip (take chunk_size (drop i text));
          segments' = (if chunk \<noteq> [] then segments @ [chunk] else segments)
      in if length segments' \<ge> 5 then segments' else chunk_loop text is segments')"

text \<open>The forced split of one segment at its middle:
  \<open>mid = len(head)//2 or 1; [head[:mid].strip(), head[mid:].strip() or "(continued)"]\<close>.\<close>

definition midpoint_split :: "string \<Rightarrow> string list" where
  "midpoint_split head =
     (let mid = (if length head div 2 = 0 then 1 else length head div 2);
          second = strip (drop mid head)
      in [strip (take mid head), if second = [] then ''(continued)'' else second])"

definition split_into_segments :: "string \<Rightarrow> string list" where
  "split_into_segments text =
     (let dash_split = re_split_dash text;
          dash_parts = map strip (filter (\<lambda>p. p \<noteq> [] \<and> strip p \<noteq> []) dash_split);
          segments0 = (if length dash_parts \<ge> 2 then take 5 dash_parts else []);
          segments1 = (if length segments0 < 2
                       then take 5 (map strip (filter (\<lambda>p. strip p \<noteq> []) (split_blank_lines text)))
                       else segments0);
          segments2 = (if length segments1 < 2
                       then chunk_loop text (chunk_starts text) segments1
                       else segments1);
          segments3 = (if length segments2 = 1 then midpoint_split (hd segments2) else segments2)
      in take 5 segments3)"

section \<open>The message builder\<close>

text \<open>
  A message is the dictionary \<open>{"role", "template_format", "input_variables",
  "content"}\<close> of the source. Every entry of \<open>content\<close> is a block
  \<open>{"type": "text", "text": t}\<close>; the model keeps the list of the texts \<open>t\<close>.
\<close>

record message =
  role :: string
  template_format :: string
  input_variables :: "string list"
  content :: "string list"

text \<open>
  The regular expression of \<open>_parse_markdown_segments\<close>, with the flags \<open>(?ms)\<close>:

  \<^verbatim>\<open>^###\s*(System|User|Assistant)\s*\n(.*?)(?=\n^###\s*(System|User|Assistant)\s*\n|\Z)\<close>

  \<open>match_label\<close> is the group \<open>(System|User|Assistant)\<close>. \<open>match_header\<close> is
  \<open>###\s*(System|User|Assistant)\s*\n\<close> at the start of a line: the first \<open>\s*\<close> takes the
  whole run of white space, line feeds included, and the second one gives back characters
  until a line feed follows it, so the header ends after the last line feed of the white
  space behind the label. What follows can always be matched (the body may run to the end
  of the text), so no shorter header is ever tried.
\<close>

definition match_label :: "string \<Rightarrow> (string \<times> string) option" where
  "match_label s =
     (if prefix ''System'' s then Some (''System'', drop 6 s)
      else if prefix ''User'' s then Some (''User'', drop 4 s)
      else if prefix ''Assistant'' s then Some (''Assistant'', drop 9 s)
      else None)"

definition match_header :: "string \<Rightarrow> (string \<times> string) option" where
  "match_header s =
     (if prefix ''###'' s then
        (case match_label (dropWhile isspace (drop 3 s)) of
           None \<Rightarrow> None
         | Some (role_label, s2) \<Rightarrow>
             (let ws = takeWhile isspace s2; s3 = dropWhile isspace s2
              in if LF \<in> set ws then Some (role_label, after_last_LF ws @ s3) else None))
      else None)"

text \<open>
  The group \<open>(.*?)\<close> with its lookahead: the shortest body after which either a line
  feed and a header follow, or the text ends. The result is the body and the text from the
  end of the match on.
\<close>

fun body_split :: "string \<Rightarrow> string \<times> string" where
  "body_split [] = ([], [])"
| "body_split (c # cs) =
     (if c = LF \<and> match_header cs \<noteq> None then ([], c # cs)
      else (let (b, r) = body_split cs in (c # b, r)))"

lemma match_label_shorter:
  "match_label s = Some (l, r) \<Longrightarrow> length r < length s"
  by (auto simp: match_label_def prefix_def split: if_splits)

lemma match_header_shorter:
  assumes "match_header s = Some (l, r)"
  shows "length r < length s"
proof -
  from assms have p: "prefix ''###'' s"
    by (simp add: match_header_def split: if_splits)
  define s1 where "s1 = dropWhile isspace (drop 3 s)"
  from assms p obtain s2 where
    lab: "match_label s1 = Some (l, s2)" and
    r: "r = after_last_LF (takeWhile isspace s2) @ dropWhile isspace s2"
    by (auto simp: match_header_def s1_def Let_def split: option.splits if_splits)
  have "length (after_last_LF (takeWhile isspace s2)) \<le> length (takeWhile isspace s2)"
    unfolding after_last_LF_def
    by (metis length_rev length_takeWhile_le)
  then have "length r \<le> length s2"
    unfolding r
    by (metis add_le_mono1 length_append takeWhile_dropWhile_id)
  also have "\<dots> < length s1"
    using lab by (rule match_label_shorter)
  also have "\<dots> \<le> length (drop 3 s)"
    unfolding s1_def by (rule length_dropWhile_le)
  also have "\<dots> \<le> length s"
    by simp
  finally show ?thesis .
qed

lemma body_split_shorter:
  "body_split s = (b, r) \<Longrightarrow> length r \<le> length s"
proof (induction s arbitrary: b r)
  case Nil
  then show ?case by simp
next
  case (Cons c cs)
  then show ?case
    by (fastforce split: if_splits prod.splits)
qed

text \<open>
  \<open>re.findall\<close>: the matches from the left, each search starting where the match before
  ended; \<open>bol\<close> says that the position is the start of a line (\<open>^\<close> under \<open>(?m)\<close>). A
  match gives the label and the body; the third group, the label the lookahead saw, is
  not used by the source.
\<close>

function find_sections :: "bool \<Rightarrow> string \<Rightarrow> (string \<times> string) list" where
  "find_sections bol [] = []"
| "find_sections bol (c # cs) =
     (case (if bol then match_header (c # cs) else None) of
        Some (role_label, r) \<Rightarrow>
          (let (b, r') = body_split r
           in (role_label, b) # find_sections (if b = [] then True else last b = LF) r')
      | None \<Rightarrow> find_sections (c = LF) cs)"
  by pat_completeness auto
termination find_sections
proof (relation "measure (\<lambda>(bol, s). length s)")
  show "wf (measure (\<lambda>(bol, s). length s))"
    by simp
next
  fix bol c cs x2 role_label r xa b r'
  assume "(if bol then match_header (c # cs) else None) = Some x2"
    and "(role_label, r) = x2" and "xa = body_split r" and "(b, r') = xa"
  then have "match_header (c # cs) = Some (role_label, r)" and "body_split r = (b, r')"
    by (auto split: if_splits)
  then have "length r' < length (c # cs)"
    using match_header_shorter body_split_shorter
    by (meson le_less_trans)
  then show "((if b = [] then True else last b = LF, r'), bol, c # cs)
      \<in> measure (\<lambda>(bol, s). length s)"
    by simp
next
  fix bol c cs
  show "((c = LF, cs), bol, c # cs) \<in> measure (\<lambda>(bol, s). length s)"
    by simp
qed

text \<open>The message of one section (the body of the loop over the matches).\<close>

definition role_map :: "string \<Rightarrow> string" where
  "role_map role_label =
     (if role_label = ''System'' then ''system''
      else if role_label = ''User'' then ''user''
      else if role_label = ''Assistant'' then ''assistant''
      else ''system'')"

definition section_message :: "string \<times> string \<Rightarrow> message" where
  "section_message m =
     (let role = role_map (fst m);
          body_text = strip (snd m);
          contents =
            (if role = ''system'' then
               (let sys_segments0 = split_into_segments body_text;
                    sys_segments = (if length sys_segments0 = 1
                                    then midpoint_split (hd sys_segments0)
                                    else sys_segments0)
                in take 5 sys_segments)
             else [body_text])
      in \<lparr>role = role, template_format = ''jinja2'',
          input_variables = (if role = ''user'' then [''provider_question''] else []),
          content = contents\<rparr>)"

definition parse_markdown_segments :: "string \<Rightarrow> message list option" where
  "parse_markdown_segments text =
     (let t = replace_cr (replace_crlf text);
          matches = find_sections True t
      in if matches = [] then None
         else (let messages = map section_message matches
               in if messages \<noteq> [] then Some messages else None))"

text \<open>
  The first half of \<open>publish_prompt_in_folder\<close>: the messages of a document. Without
  labelled sections three messages are made up; with them the assistant messages are
  dropped. Then every system message with fewer than two segments is segmented again
  (\<open>ensure_system_segments\<close>, the loop that assigns \<open>m["content"]\<close>).
\<close>

definition fallback_messages :: "string \<Rightarrow> message list" where
  "fallback_messages content_text =
     (let segments = split_into_segments content_text
      in [\<lparr>role = ''system'', template_format = ''jinja2'',
            input_variables = [''provider_question''], content = segments\<rparr>,
          \<lparr>role = ''user'', template_format = ''jinja2'',
            input_variables = [''provider_question''],
            content = [''CURRENT PROVIDER QUESTION:'', ''{{ provider_question }}'']\<rparr>,
          \<lparr>role = ''assistant'', template_format = ''jinja2'',
            input_variables = [''provider_question''],
            content = [''Understood. I will respond as the patient persona following these guidelines.'']\<rparr>])"

definition drop_assistant :: "message list \<Rightarrow> message list" where
  "drop_assistant parsed_messages = filter (\<lambda>m. role m \<noteq> ''assistant'') parsed_messages"

definition ensure_system_segments :: "message \<Rightarrow> message" where
  "ensure_system_segments m =
     (if role m = ''system'' \<and> length (content m) < 2 then
        (let sys_text = join ''\<newline>\<newline>'' (content m);
             forced0 = split_into_segments sys_text;
             forced = (if length forced0 < 2 \<and> sys_text \<noteq> []
                       then midpoint_split sys_text else forced0)
         in m\<lparr>content := take 5 forced\<rparr>)
      else m)"

definition build_messages :: "string \<Rightarrow> message list" where
  "build_messages content_text =
     map ensure_system_segments
       (case parse_markdown_segments content_text of
          None \<Rightarrow> fallback_messages content_text
        | Some parsed_messages \<Rightarrow> drop_assistant parsed_messages)"

section \<open>JSON values and the remote service\<close>

text \<open>
  The values \<open>json.loads\<close> returns. A Python \<open>float\<close> is a finite number or one of
  \<open>inf\<close>, \<open>-inf\<close> and \<open>nan\<close> (which \<open>json.loads\<close> reads from \<open>Infinity\<close>, \<open>-Infinity\<close>
  and \<open>NaN\<close>). A dictionary keeps its keys in the order of insertion, each key once; the
  value \<open>None\<close> is \<open>JNull\<close>.
\<close>

datatype pyfloat = Fin real | PosInf | NegInf | NaN

datatype json =
    JNull
  | JBool bool
  | JInt int
  | JFloat pyfloat
  | JStr string
  | JList "json list"
  | JDict "(string \<times> json) list"


datatype http_method = GET | POST

record request =
  req_method :: http_method
  req_url :: string
  req_headers :: "(string \<times> string) list"
  req_json :: "json option"

text \<open>
  A response: its status, its text, and what \<open>r.json()\<close> returns (\<open>None\<close> where it
  raises). A call of \<open>httpx\<close> either returns a response or raises a transport error
  (no connection, a timeout).
\<close>

record response =
  status_code :: int
  resp_text :: string
  resp_json :: "json option"

datatype outcome = Responded response | Failed

datatype py_error = TransportError | AttributeError

text \<open>
  The remote service answers a request from its state and moves to a new state. The
  world of a run is the state of the service and the requests sent so far.
\<close>

type_synonym 's service = "'s \<Rightarrow> request \<Rightarrow> outcome \<times> 's"

record 's world =
  service_state :: 's
  sent :: "request list"

definition send :: "'s service \<Rightarrow> request \<Rightarrow> 's world \<Rightarrow> outcome \<times> 's world" where
  "send srv rq w =
     (let (out, s') = srv (service_state w) rq
      in (out, \<lparr>service_state = s', sent = sent w @ [rq]\<rparr>))"

definition API_BASE :: string where
  "API_BASE = ''https://api.promptlayer.com/api/public/v2''"

definition API_BASE_LEGACY :: string where
  "API_BASE_LEGACY = ''https://api.promptlayer.com''"

definition headers :: "string \<Rightarrow> (string \<times> string) list" where
  "headers api_key =
     [(''X-API-KEY'', api_key),
      (''Authorization'', ''Bearer '' @ api_key),
      (''Accept'', ''application/json''),
      (''Content-Type'', ''application/json''),
      (''User-Agent'', ''vignette-folder-publisher/1.0'')]"

text \<open>
  \<open>r = client.post(url, headers=headers, json=body)\<close> followed by
  \<open>try: data = r.json() except Exception: data = {"raw": r.text}\<close>, as every attempt of
  the source does: the status and the data, or the transport error that leaves the
  function.
\<close>

definition response_data :: "response \<Rightarrow> json" where
  "response_data r =
     (case resp_json r of Some j \<Rightarrow> j | None \<Rightarrow> JDict [(''raw'', JStr (resp_text r))])"

definition post_request :: "string \<Rightarrow> (string \<times> string) list \<Rightarrow> json \<Rightarrow> request" where
  "post_request u hs body =
     \<lparr>req_method = POST, req_url = u, req_headers = hs, req_json = Some body\<rparr>"


definition post_json ::
  "'s service \<Rightarrow> request \<Rightarrow> 's world \<Rightarrow> (py_error + int \<times> json) \<times> 's world" where
  "post_json srv rq w =
     (case send srv rq w of
        (Failed, w') \<Rightarrow> (Inl TransportError, w')
      | (Responded r, w') \<Rightarrow> (Inr (status_code r, response_data r), w'))"

text \<open>\<open>status in (200, 201)\<close>\<close>

definition ok_status :: "int \<Rightarrow> bool" where
  "ok_status st = (st = 200 \<or> st = 201)"

text \<open>\<open>str(n)\<close> of an integer, for the URLs.\<close>

definition digit_char :: "nat \<Rightarrow> char" where
  "digit_char d = char_of (48 + d)"

function str_of_nat :: "nat \<Rightarrow> string" where
  "str_of_nat n = (if n < 10 then [digit_char n] else str_of_nat (n div 10) @ [digit_char (n mod 10)])"
  by pat_completeness auto
termination str_of_nat
  by (relation "measure id") auto

definition str_of_int :: "int \<Rightarrow> string" where
  "str_of_int i = (if i < 0 then CHR ''-'' # str_of_nat (nat (- i)) else str_of_nat (nat i))"

section \<open>The publisher\<close>

text \<open>The JSON of a message and of its content blocks.\<close>

definition text_block :: "string \<Rightarrow> json" where
  "text_block t = JDict [(''type'', JStr ''text''), (''text'', JStr t)]"

definition message_json :: "message \<Rightarrow> json" where
  "message_json m =
     JDict [(''role'', JStr (role m)),
            (''template_format'', JStr (template_format m)),
            (''input_variables'', JList (map JStr (input_variables m))),
            (''content'', JList (map text_block (content m)))]"

text \<open>\<open>**({"commit_message": commit_message} if commit_message else {})\<close> and the same for
  the metadata: the entry is there for a value that is not empty.\<close>

definition commit_entry :: "string option \<Rightarrow> (string \<times> json) list" where
  "commit_entry commit_message =
     (case commit_message of
        Some c \<Rightarrow> (if c \<noteq> [] then [(''commit_message'', JStr c)] else [])
      | None \<Rightarrow> [])"

definition metadata_entry :: "(string \<times> json) list option \<Rightarrow> (string \<times> json) list" where
  "metadata_entry metadata =
     (case metadata of
        Some d \<Rightarrow> (if d \<noteq> [] then [(''metadata'', JDict d)] else [])
      | None \<Rightarrow> [])"

definition body_v2 ::
  "int \<Rightarrow> string \<Rightarrow> string option \<Rightarrow> (string \<times> json) list option \<Rightarrow> message list \<Rightarrow> json" where
  "body_v2 folder_id prompt_name commit_message metadata messages =
     JDict ([(''folder_id'', JInt folder_id),
             (''prompt_name'', JStr prompt_name),
             (''prompt_template'',
                JDict [(''type'', JStr ''chat''),
                       (''messages'', JList (map message_json messages))])]
            @ commit_entry commit_message @ metadata_entry metadata)"

text \<open>The messages of the REST attempt: each message with its segments joined into one
  (the keys \<open>template_format\<close> and \<open>input_variables\<close> are always there already).\<close>

definition collapse_message :: "message \<Rightarrow> message" where
  "collapse_message m = m\<lparr>content := [join ''\<newline>\<newline>'' (content m)]\<rparr>"

definition rest_template ::
  "int \<Rightarrow> string \<Rightarrow> string option \<Rightarrow> (string \<times> json) list option \<Rightarrow> message list \<Rightarrow> json" where
  "rest_template folder_id prompt_name commit_message metadata rest_messages =
     JDict ([(''prompt_name'', JStr prompt_name),
             (''folder_id'', JInt folder_id),
             (''prompt_template'',
                JDict [(''type'', JStr ''chat''),
                       (''messages'', JList (map message_json rest_messages)),
                       (''input_variables'', JList []),
                       (''dataset_examples'', JList [])])]
            @ commit_entry commit_message @ metadata_entry metadata)"

definition rest_body ::
  "int \<Rightarrow> string \<Rightarrow> string option \<Rightarrow> (string \<times> json) list option \<Rightarrow> message list \<Rightarrow> json" where
  "rest_body folder_id prompt_name commit_message metadata messages =
     (let rest_messages = map collapse_message messages
      in JDict [(''prompt_template'',
                   rest_template folder_id prompt_name commit_message metadata rest_messages),
                (''prompt_version'',
                   rest_template folder_id prompt_name commit_message metadata rest_messages)])"

definition payload_chat :: "int \<Rightarrow> string \<Rightarrow> message list \<Rightarrow> json" where
  "payload_chat folder_id prompt_name messages =
     JDict [(''name'', JStr prompt_name),
            (''folder_id'', JInt folder_id),
            (''messages'', JList (map message_json messages))]"

definition payload_folder_chat :: "string \<Rightarrow> message list \<Rightarrow> json" where
  "payload_folder_chat prompt_name messages =
     JDict [(''name'', JStr prompt_name),
            (''messages'', JList (map message_json messages))]"

text \<open>The loop of the completion fallback over the messages: the last system text and
  the last user text that are not empty, starting from the empty text and the
  placeholder.\<close>

definition completion_texts :: "message list \<Rightarrow> string \<times> string" where
  "completion_texts messages =
     fold (\<lambda>m (system_text, user_text).
             (let txt = strip (join ''\<newline>\<newline>'' (content m))
              in (if role m = ''system'' \<and> txt \<noteq> [] then txt else system_text,
                  if role m = ''user'' \<and> txt \<noteq> [] then txt else user_text)))
          messages ([], ''{{ provider_question }}'')"

definition completion_payload :: "int \<Rightarrow> string \<Rightarrow> message list \<Rightarrow> json" where
  "completion_payload folder_id prompt_name messages =
     (let (system_text, user_text) = completion_texts messages
      in JDict [(''name'', JStr prompt_name),
                (''folder_id'', JInt folder_id),
                (''messages'',
                   JList [JDict [(''role'', JStr ''system''),
                                 (''content'', JList [text_block system_text])],
                          JDict [(''role'', JStr ''user''),
                                 (''content'', JList [text_block user_text,
                                                      text_block ''(continued)''])]])])"

text \<open>The five requests, in the order of the source.\<close>

definition request_v2 ::
  "int \<Rightarrow> string \<Rightarrow> string \<Rightarrow> string option \<Rightarrow> (string \<times> json) list option
    \<Rightarrow> message list \<Rightarrow> request" where
  "request_v2 folder_id prompt_name api_key commit_message metadata messages =
     post_request (API_BASE @ ''/prompt-templates'') (headers api_key)
       (body_v2 folder_id prompt_name commit_message metadata messages)"

definition headers_legacy :: "string \<Rightarrow> (string \<times> string) list" where
  "headers_legacy api_key =
     AList.update ''Authorization'' (''Bearer '' @ api_key) (headers api_key)"

definition request_rest ::
  "int \<Rightarrow> string \<Rightarrow> string \<Rightarrow> string option \<Rightarrow> (string \<times> json) list option
    \<Rightarrow> message list \<Rightarrow> request" where
  "request_rest folder_id prompt_name api_key commit_message metadata messages =
     post_request (API_BASE_LEGACY @ ''/rest/prompt-templates'') (headers_legacy api_key)
       (rest_body folder_id prompt_name commit_message metadata messages)"

definition request_legacy :: "int \<Rightarrow> string \<Rightarrow> string \<Rightarrow> message list \<Rightarrow> request" where
  "request_legacy folder_id prompt_name api_key messages =
     post_request (API_BASE_LEGACY @ ''/prompt-templates'') (headers_legacy api_key)
       (payload_chat folder_id prompt_name messages)"

definition request_folder :: "int \<Rightarrow> string \<Rightarrow> string \<Rightarrow> message list \<Rightarrow> request" where
  "request_folder folder_id prompt_name api_key messages =
     post_request (API_BASE_LEGACY @ ''/folders/'' @ str_of_int folder_id @ ''/prompt-templates'')
       (headers_legacy api_key) (payload_folder_chat prompt_name messages)"

definition request_completion :: "int \<Rightarrow> string \<Rightarrow> string \<Rightarrow> message list \<Rightarrow> request" where
  "request_completion folder_id prompt_name api_key messages =
     post_request (API_BASE_LEGACY @ ''/prompt-templates'') (headers_legacy api_key)
       (completion_payload folder_id prompt_name messages)"

text \<open>
  The attempts against the legacy endpoints, from the comment
  \<open># Fallbacks against legacy endpoints\<close> of \<open>publish_prompt_in_folder\<close> to its end.
\<close>

definition legacy_attempts ::
  "'s service \<Rightarrow> int \<Rightarrow> string \<Rightarrow> string \<Rightarrow> string option \<Rightarrow> (string \<times> json) list option
    \<Rightarrow> message list \<Rightarrow> 's world \<Rightarrow> (py_error + json) \<times> 's world" where
  "legacy_attempts srv folder_id prompt_name api_key commit_message metadata messages w =
     (case post_json srv
             (request_rest folder_id prompt_name api_key commit_message metadata messages) w of
        (Inl e, w1) \<Rightarrow> (Inl e, w1)
      | (Inr (statusR, dataR), w1) \<Rightarrow>
          if ok_status statusR then (Inr dataR, w1)
          else
            (case post_json srv (request_legacy folder_id prompt_name api_key messages) w1 of
               (Inl e, w2) \<Rightarrow> (Inl e, w2)
             | (Inr (status2, data2), w2) \<Rightarrow>
                 if ok_status status2 then (Inr data2, w2)
                 else
                   (case post_json srv
                           (request_folder folder_id prompt_name api_key messages) w2 of
                      (Inl e, w3) \<Rightarrow> (Inl e, w3)
                    | (Inr (statusF, dataF), w3) \<Rightarrow>
                        if ok_status statusF then (Inr dataF, w3)
                        else
                          (case post_json srv
                                  (request_completion folder_id prompt_name api_key messages)
                                  w3 of
                             (Inl e, w4) \<Rightarrow> (Inl e, w4)
                           | (Inr (statusC, dataC), w4) \<Rightarrow>
                               if ok_status statusC then (Inr dataC, w4)
                               else (Inr (JDict [(''rest'', dataR), (''legacy'', data2),
                                                 (''folder'', dataF), (''completion'', dataC)]),
                                     w4)))))"

definition publish_prompt_in_folder ::
  "'s service \<Rightarrow> int \<Rightarrow> string \<Rightarrow> string \<Rightarrow> string \<Rightarrow> string option
    \<Rightarrow> (string \<times> json) list option \<Rightarrow> bool \<Rightarrow> bool \<Rightarrow> bool \<Rightarrow> 's world
    \<Rightarrow> (py_error + json) \<times> 's world" where
  "publish_prompt_in_folder srv folder_id prompt_name content_text api_key commit_message
       metadata debug force_legacy dry_run w =
     (let messages = build_messages content_text
      in if dry_run then
           (Inr (JDict [(''dry_run'', JBool True), (''folder_id'', JInt folder_id),
                        (''prompt_name'', JStr prompt_name)]), w)
         else if \<not> force_legacy then
           (case post_json srv
                   (request_v2 folder_id prompt_name api_key commit_message metadata messages)
                   w of
              (Inl e, w0) \<Rightarrow> (Inl e, w0)
            | (Inr (status, data), w0) \<Rightarrow>
                if ok_status status then (Inr data, w0)
                else legacy_attempts srv folder_id prompt_name api_key commit_message
                       metadata messages w0)
         else legacy_attempts srv folder_id prompt_name api_key commit_message metadata
                messages w)"

text \<open>The test of the caller (\<open>main\<close>) on a result:
  \<open>isinstance(resp, dict) and "id" in resp\<close>.\<close>

definition has_id :: "json \<Rightarrow> bool" where
  "has_id resp = (case resp of JDict d \<Rightarrow> ''id'' \<in> fst ` set d | _ \<Rightarrow> False)"

section \<open>The folder resolver\<close>



























section \<open>Notions for stating the properties\<close>

text \<open>
  The two lists of parts \<open>_split_into_segments\<close> computes first.
\<close>

definition dash_parts :: "string \<Rightarrow> string list" where
  "dash_parts t = map strip (filter (\<lambda>p. p \<noteq> [] \<and> strip p \<noteq> []) (re_split_dash t))"

definition blank_parts :: "string \<Rightarrow> string list" where
  "blank_parts t = map strip (filter (\<lambda>p. strip p \<noteq> []) (split_blank_lines t))"

text \<open>
  The outcomes a service gives to a list of requests sent one after the other.
\<close>

fun run_service :: "'s service \<Rightarrow> 's \<Rightarrow> request list \<Rightarrow> outcome list" where
  "run_service srv s [] = []"
| "run_service srv s (rq # rqs) = (let (out, s') = srv s rq in out # run_service srv s' rqs)"

text \<open>
  An attempt failed, as the source decides it: the service answered, and the status is
  neither 200 nor 201.
\<close>

definition attempt_failed :: "outcome \<Rightarrow> bool" where
  "attempt_failed out =
     (case out of Responded r \<Rightarrow> \<not> ok_status (status_code r) | Failed \<Rightarrow> False)"

text \<open>
  The data of an outcome that is a response (its JSON, or its text under
  \<open>raw\<close>).
\<close>

definition outcome_data :: "outcome \<Rightarrow> json" where
  "outcome_data out = (case out of Responded r \<Rightarrow> response_data r | Failed \<Rightarrow> JNull)"

text \<open>
  The requests of one call of \<open>publish_prompt_in_folder\<close> in the order of
  the source: the v2 endpoint (left out under \<open>force_legacy\<close>), the REST
  endpoint, the legacy endpoint, the endpoint of the folder, and the legacy endpoint
  with the completion payload.
\<close>

definition planned_requests ::
  "int \<Rightarrow> string \<Rightarrow> string \<Rightarrow> string \<Rightarrow> string option \<Rightarrow> (string \<times> json) list option
    \<Rightarrow> bool \<Rightarrow> request list" where
  "planned_requests folder_id prompt_name content_text api_key commit_message metadata
       force_legacy =
     (let messages = build_messages content_text
      in (if force_legacy then []
          else [request_v2 folder_id prompt_name api_key commit_message metadata messages])
         @ [request_rest folder_id prompt_name api_key commit_message metadata messages,
            request_legacy folder_id prompt_name api_key messages,
            request_folder folder_id prompt_name api_key messages,
            request_completion folder_id prompt_name api_key messages])"

text \<open>
  Requests tried in order until one succeeds, with the data of the failed attempts
  collected: the linear state machine the chain of the source unrolls. The result is the
  error of a transport failure, the data of the first success, or the data of all the
  attempts when none succeeded.
\<close>

fun attempt_chain ::
  "'s service \<Rightarrow> request list \<Rightarrow> json list \<Rightarrow> 's world
    \<Rightarrow> (py_error + json + json list) \<times> 's world" where
  "attempt_chain srv [] acc w = (Inr (Inr acc), w)"
| "attempt_chain srv (rq # rqs) acc w =
     (case post_json srv rq w of
        (Inl e, w') \<Rightarrow> (Inl e, w')
      | (Inr (st, d), w') \<Rightarrow>
          if ok_status st then (Inr (Inl d), w') else attempt_chain srv rqs (acc @ [d]) w')"

text \<open>
  The result of \<open>publish_prompt_in_folder\<close> from that of the chain: when no
  attempt succeeded, the data of the last four attempts under the names of the source.
\<close>

definition chain_result :: "(py_error + json + json list) \<Rightarrow> py_error + json" where
  "chain_result c =
     (case c of
        Inl e \<Rightarrow> Inl e
      | Inr (Inl d) \<Rightarrow> Inr d
      | Inr (Inr ds) \<Rightarrow>
          Inr (JDict (zip [''rest'', ''legacy'', ''folder'', ''completion'']
                          (drop (length ds - 4) ds))))"

text \<open>A service that gives the same outcome to every request.\<close>

definition constant_service :: "outcome \<Rightarrow> unit service" where
  "constant_service out s rq = (out, s)"

text \<open>
  A service that answers its first four requests with the status 500 and every later one
  with the status 201; its state counts the requests.
\<close>

definition fails_then_succeeds :: "nat service" where
  "fails_then_succeeds n rq =
     (if n < 4
      then (Responded \<lparr>status_code = 500, resp_text = ''error'', resp_json = None\<rparr>, Suc n)
      else (Responded \<lparr>status_code = 201, resp_text = ''ok'',
                        resp_json = Some (JDict [(''id'', JInt 99)])\<rparr>, Suc n))"

text \<open>
  An attempt failed, in the words of C1: the status is not a 2xx status, or the response
  cannot be parsed.
\<close>

definition spec_attempt_failed :: "response \<Rightarrow> bool" where
  "spec_attempt_failed r =
     (\<not> (200 \<le> status_code r \<and> status_code r < 300) \<or> resp_json r = None)"

text \<open>A JSON value with all the values inside it.\<close>

fun json_parts :: "json \<Rightarrow> json list" where
  "json_parts (JList xs) = JList xs # concat (map json_parts xs)"
| "json_parts (JDict d) = JDict d # concat (map (\<lambda>kv. json_parts (snd kv)) d)"
| "json_parts v = [v]"


section \<open>Properties of the segmenter\<close>

lemma dropWhile_all_iff: "(\<forall>x\<in>set (dropWhile P s). P x) \<longleftrightarrow> (\<forall>x\<in>set s. P x)"
proof
  assume a: "\<forall>x\<in>set (dropWhile P s). P x"
  have "dropWhile P s = []"
  proof (rule ccontr)
    assume n: "dropWhile P s \<noteq> []"
    then have "\<not> P (hd (dropWhile P s))" by (rule hd_dropWhile)
    moreover have "hd (dropWhile P s) \<in> set (dropWhile P s)" using n by simp
    ultimately show False using a by blast
  qed
  then show "\<forall>x\<in>set s. P x" by (simp add: dropWhile_eq_Nil_conv)
next
  assume "\<forall>x\<in>set s. P x"
  then show "\<forall>x\<in>set (dropWhile P s). P x" by (meson set_dropWhileD)
qed

lemma strip_Nil_iff: "strip s = [] \<longleftrightarrow> list_all isspace s"
  by (simp add: strip_def dropWhile_eq_Nil_conv dropWhile_all_iff list_all_iff)

lemma set_strip: "set (strip s) \<subseteq> set s"
  unfolding strip_def
  by (metis set_dropWhileD set_rev subsetI)

lemma strip_strip_nonempty: "strip s \<noteq> [] \<Longrightarrow> strip (strip s) \<noteq> []"
proof -
  assume a: "strip s \<noteq> []"
  define t where "t = dropWhile isspace (rev (dropWhile isspace s))"
  from a have "t \<noteq> []" by (simp add: strip_def t_def)
  then have "\<not> isspace (hd t)" unfolding t_def by (rule hd_dropWhile)
  moreover have "hd t \<in> set (strip s)" using \<open>t \<noteq> []\<close> by (simp add: strip_def t_def[symmetric])
  ultimately show ?thesis
    by (auto simp: strip_Nil_iff list_all_iff)
qed

lemma split_blank_lines_nonempty: "split_blank_lines s \<noteq> []"
  by (induction s rule: split_blank_lines.induct) (auto simp: Let_def)

lemma split_blank_lines_pieces: "p \<in> set (split_blank_lines s) \<Longrightarrow> set p \<subseteq> set s"
proof (induction s arbitrary: p rule: split_blank_lines.induct)
  case 1 then show ?case by simp
next
  case (2 c) then show ?case by simp
next
  case (3 c d cs)
  show ?case
  proof (cases "c = LF \<and> d = LF")
    case True
    with 3 show ?thesis by auto
  next
    case False
    define r where "r = split_blank_lines (d # cs)"
    have rne: "r \<noteq> []" unfolding r_def by (rule split_blank_lines_nonempty)
    from False 3(3) have "p = c # hd r \<or> p \<in> set (tl r)"
      by (auto simp: Let_def r_def)
    moreover have "set (hd r) \<subseteq> set (d # cs)"
      using 3(2)[OF False, of "hd r"] rne by (simp add: r_def)
    moreover have "p \<in> set (tl r) \<Longrightarrow> set p \<subseteq> set (d # cs)"
      using 3(2)[OF False, of p] rne by (auto simp: r_def dest: list.set_sel(2))
    ultimately show ?thesis by auto
  qed
qed

lemma split_blank_lines_cover:
  "c \<in> set s \<Longrightarrow> c = LF \<or> (\<exists>p \<in> set (split_blank_lines s). c \<in> set p)"
proof (induction s rule: split_blank_lines.induct)
  case 1 then show ?case by simp
next
  case (2 c) then show ?case by simp
next
  case (3 a d cs)
  show ?case
  proof (cases "a = LF \<and> d = LF")
    case True
    with 3 show ?thesis by auto
  next
    case False
    define r where "r = split_blank_lines (d # cs)"
    have rne: "r \<noteq> []" unfolding r_def by (rule split_blank_lines_nonempty)
    have eq: "split_blank_lines (a # d # cs) = (a # hd r) # tl r"
      using False by (simp add: Let_def r_def)
    show ?thesis
    proof (cases "c = a")
      case True
      then show ?thesis unfolding eq by simp
    next
      case False
      with 3(3) have "c \<in> set (d # cs)" by simp
      from 3(2)[OF \<open>\<not> (a = LF \<and> d = LF)\<close> this]
      consider "c = LF" | p where "p \<in> set r" "c \<in> set p" by (auto simp: r_def)
      then show ?thesis
      proof cases
        case 1 then show ?thesis by simp
      next
        case 2
        then have "p = hd r \<or> p \<in> set (tl r)" using rne by (cases r) auto
        with 2 show ?thesis unfolding eq by auto
      qed
    qed
  qed
qed

lemma isspace_LF: "isspace LF"
  by (simp add: isspace_def LF_def)

lemma set_after_last_LF: "set (after_last_LF ws) \<subseteq> set ws"
  unfolding after_last_LF_def
  by (metis set_rev set_takeWhileD subsetI)

lemma match_dash_break_chars:
  assumes "match_dash_break s = Some r"
  shows "set r \<subseteq> set s"
proof (cases s)
  case Nil
  with assms show ?thesis by (simp add: match_dash_break_def)
next
  case (Cons c s1)
  define s2 where "s2 = dropWhile isspace s1"
  define s3 where "s3 = dropWhile (\<lambda>d. d = CHR ''-'') s2"
  have r: "r = after_last_LF (takeWhile isspace s3) @ dropWhile isspace s3"
    using assms Cons
    by (simp add: match_dash_break_def Let_def s2_def s3_def split: if_splits)
  have "set r \<subseteq> set s3"
    unfolding r using set_after_last_LF[of "takeWhile isspace s3"]
    by (auto dest: set_takeWhileD set_dropWhileD)
  also have "\<dots> \<subseteq> set s2"
    unfolding s3_def by (auto dest: set_dropWhileD)
  also have "\<dots> \<subseteq> set s1"
    unfolding s2_def by (auto dest: set_dropWhileD)
  finally show ?thesis using Cons by auto
qed

lemma re_split_dash_nonempty: "re_split_dash s \<noteq> []"
  by (induction s rule: re_split_dash.induct) (auto simp: Let_def split: option.splits)

lemma re_split_dash_pieces: "p \<in> set (re_split_dash s) \<Longrightarrow> set p \<subseteq> set s"
proof (induction s arbitrary: p rule: re_split_dash.induct)
  case 1
  then show ?case by simp
next
  case (2 c cs)
  show ?case
  proof (cases "match_dash_break (c # cs)")
    case (Some r)
    with 2(3) have "p = [] \<or> p \<in> set (re_split_dash r)" by auto
    moreover have "set r \<subseteq> set (c # cs)" using Some by (rule match_dash_break_chars)
    ultimately show ?thesis using 2(2)[OF Some, of p] by auto
  next
    case None
    define ps where "ps = re_split_dash cs"
    have ne: "ps \<noteq> []" unfolding ps_def by (rule re_split_dash_nonempty)
    from None 2(3) have "p = c # hd ps \<or> p \<in> set (tl ps)"
      by (auto simp: Let_def ps_def)
    moreover have "set (hd ps) \<subseteq> set cs"
      using 2(1)[OF None, of "hd ps"] ne by (simp add: ps_def)
    moreover have "p \<in> set (tl ps) \<Longrightarrow> set p \<subseteq> set cs"
      using 2(1)[OF None, of p] ne by (auto simp: ps_def dest: list.set_sel(2))
    ultimately show ?thesis by auto
  qed
qed

lemma chunk_loop_length_ge: "length segs \<le> length (chunk_loop text ks segs)"
proof (induction ks arbitrary: segs)
  case Nil
  then show ?case by simp
next
  case (Cons k ks)
  show ?case
    using Cons[of "segs @ [strip (take chunk_size (drop k text))]"] Cons[of segs]
    by (auto simp: Let_def)
qed

lemma chunk_loop_length_le:
  "length segs < 5 \<Longrightarrow> length (chunk_loop text ks segs) \<le> 5"
proof (induction ks arbitrary: segs)
  case Nil
  then show ?case by simp
next
  case (Cons k ks)
  show ?case
    using Cons.IH[of "segs @ [strip (take chunk_size (drop k text))]"] Cons.IH[of segs] Cons.prems
    by (auto simp: Let_def)
qed

lemma chunk_loop_elems:
  "x \<in> set (chunk_loop text ks segs) \<Longrightarrow> x \<in> set segs \<or> (x \<noteq> [] \<and> (\<exists>k. x = strip (take chunk_size (drop k text))))"
proof (induction ks arbitrary: segs)
  case Nil
  then show ?case by simp
next
  case (Cons k ks)
  show ?case
    using Cons.IH[of "segs @ [strip (take chunk_size (drop k text))]"] Cons.IH[of segs] Cons.prems
    by (auto simp: Let_def split: if_splits)
qed

lemma chunk_loop_blank:
  "list_all isspace text \<Longrightarrow> chunk_loop text ks segs = segs"
proof (induction ks arbitrary: segs)
  case Nil
  then show ?case by simp
next
  case (Cons k ks)
  have "list_all isspace (take chunk_size (drop k text))"
    using Cons.prems by (auto simp: list_all_iff dest: in_set_takeD in_set_dropD)
  then have "strip (take chunk_size (drop k text)) = []"
    by (simp add: strip_Nil_iff)
  then show ?case using Cons by (simp add: Let_def)
qed

lemma chunk_loop_grows:
  assumes "length segs < 5" and "k \<in> set ks" and "strip (take chunk_size (drop k text)) \<noteq> []"
  shows "length segs < length (chunk_loop text ks segs)"
  using assms
proof (induction ks arbitrary: segs)
  case Nil
  then show ?case by simp
next
  case (Cons j ks)
  show ?case
  proof (cases "strip (take chunk_size (drop j text)) = []")
    case True
    with Cons.prems have "k \<in> set ks" by auto
    from Cons.IH[OF Cons.prems(1) this Cons.prems(3)] True Cons.prems(1)
    show ?thesis by (simp add: Let_def)
  next
    case False
    then show ?thesis
      using chunk_loop_length_ge[of "segs @ [strip (take chunk_size (drop j text))]" "text" ks]
      by (auto simp: Let_def)
  qed
qed

lemma nonblank_chunk_exists:
  assumes "\<not> list_all isspace text"
  shows "\<exists>k \<in> set (chunk_starts text). strip (take chunk_size (drop k text)) \<noteq> []"
proof -
  from assms obtain j where j: "j < length text" "\<not> isspace (text ! j)"
    by (auto simp: list_all_iff in_set_conv_nth)
  define q where "q = j div chunk_size"
  have pos: "0 < chunk_size" by (simp add: chunk_size_def)
  have e: "length text + chunk_size - 1 = (length text - 1) + chunk_size"
    using j(1) by linarith
  have "(length text - 1 + chunk_size) div chunk_size = (length text - 1) div chunk_size + 1"
    using pos by (intro div_add_self2) simp
  then have "(length text + chunk_size - 1) div chunk_size = Suc ((length text - 1) div chunk_size)"
    by (simp only: e Suc_eq_plus1)
  moreover have "q \<le> (length text - 1) div chunk_size"
    unfolding q_def using j(1) by (intro div_le_mono) simp
  ultimately have "q < (length text + chunk_size - 1) div chunk_size"
    by simp
  then have mem: "q * chunk_size \<in> set (chunk_starts text)"
    by (auto simp: chunk_starts_def)
  have le: "q * chunk_size \<le> j"
    unfolding q_def by simp
  have "j - q * chunk_size = j mod chunk_size"
    unfolding q_def by (simp add: minus_div_mult_eq_mod)
  then have lt: "j - q * chunk_size < chunk_size"
    using pos by simp
  have "take chunk_size (drop (q * chunk_size) text) ! (j - q * chunk_size) = text ! j"
    using le lt j(1) by simp
  moreover have "j - q * chunk_size < length (take chunk_size (drop (q * chunk_size) text))"
    using le lt j(1) by simp
  ultimately have "text ! j \<in> set (take chunk_size (drop (q * chunk_size) text))"
    by (metis nth_mem)
  with j(2) have "\<not> list_all isspace (take chunk_size (drop (q * chunk_size) text))"
    by (auto simp: list_all_iff)
  then have "strip (take chunk_size (drop (q * chunk_size) text)) \<noteq> []"
    by (simp add: strip_Nil_iff)
  with mem show ?thesis by blast
qed

lemma split_into_segments_alt:
  "split_into_segments t =
     (let s0 = (if 2 \<le> length (dash_parts t) then take 5 (dash_parts t) else []);
          s1 = (if length s0 < 2 then take 5 (blank_parts t) else s0);
          s2 = (if length s1 < 2 then chunk_loop t (chunk_starts t) s1 else s1);
          s3 = (if length s2 = 1 then midpoint_split (hd s2) else s2)
      in take 5 s3)"
  unfolding split_into_segments_def dash_parts_def blank_parts_def Let_def
  by (rule refl)

lemma split_by_dashes:
  "2 \<le> length (dash_parts t) \<Longrightarrow> split_into_segments t = take 5 (dash_parts t)"
  by (simp add: split_into_segments_alt Let_def min_def)

lemma split_by_blank_lines:
  "length (dash_parts t) < 2 \<Longrightarrow> 2 \<le> length (blank_parts t)
    \<Longrightarrow> split_into_segments t = take 5 (blank_parts t)"
  by (simp add: split_into_segments_alt Let_def min_def)

lemma split_by_chunks:
  assumes "length (dash_parts t) < 2" and "length (blank_parts t) < 2"
  shows "split_into_segments t =
     (let c = chunk_loop t (chunk_starts t) (blank_parts t)
      in take 5 (if length c = 1 then midpoint_split (hd c) else c))"
proof -
  have "take 5 (blank_parts t) = blank_parts t" using assms(2) by simp
  then show ?thesis
    using assms by (simp add: split_into_segments_alt Let_def)
qed

lemma dash_parts_blank: "list_all isspace t \<Longrightarrow> dash_parts t = []"
proof -
  assume b: "list_all isspace t"
  have "\<And>p. p \<in> set (re_split_dash t) \<Longrightarrow> strip p = []"
    using b re_split_dash_pieces by (fastforce simp: strip_Nil_iff list_all_iff)
  then show ?thesis
    by (simp add: dash_parts_def filter_empty_conv)
qed

lemma blank_parts_blank: "list_all isspace t \<Longrightarrow> blank_parts t = []"
proof -
  assume b: "list_all isspace t"
  have "\<And>p. p \<in> set (split_blank_lines t) \<Longrightarrow> strip p = []"
    using b split_blank_lines_pieces by (fastforce simp: strip_Nil_iff list_all_iff)
  then show ?thesis
    by (simp add: blank_parts_def filter_empty_conv)
qed

lemma blank_parts_nonblank: "\<not> list_all isspace t \<Longrightarrow> blank_parts t \<noteq> []"
proof -
  assume "\<not> list_all isspace t"
  then obtain c where c: "c \<in> set t" "\<not> isspace c" by (auto simp: list_all_iff)
  with split_blank_lines_cover[OF c(1)] isspace_LF
  obtain p where p: "p \<in> set (split_blank_lines t)" "c \<in> set p" by auto
  with c(2) have "strip p \<noteq> []" by (auto simp: strip_Nil_iff list_all_iff)
  with p(1) show ?thesis
    by (auto simp: blank_parts_def filter_empty_conv)
qed

lemma chunks_blank:
  "list_all isspace t \<Longrightarrow> chunk_loop t (chunk_starts t) (blank_parts t) = []"
  by (simp add: chunk_loop_blank blank_parts_blank)

lemma chunks_nonblank:
  assumes "\<not> list_all isspace t" and "length (blank_parts t) < 2"
  shows "2 \<le> length (chunk_loop t (chunk_starts t) (blank_parts t))
    \<and> length (chunk_loop t (chunk_starts t) (blank_parts t)) \<le> 5"
proof -
  define c where "c = chunk_loop t (chunk_starts t) (blank_parts t)"
  have one: "length (blank_parts t) = 1"
    using assms(2) blank_parts_nonblank[OF assms(1)] by (cases "blank_parts t") auto
  obtain k where k: "k \<in> set (chunk_starts t)" "strip (take chunk_size (drop k t)) \<noteq> []"
    using nonblank_chunk_exists[OF assms(1)] by blast
  have "length (blank_parts t) < length c"
    unfolding c_def using one k by (intro chunk_loop_grows[where k = k]) simp_all
  then have ge: "2 \<le> length c" using one by simp
  have le: "length c \<le> 5"
    unfolding c_def using one by (intro chunk_loop_length_le) simp
  from ge le show ?thesis unfolding c_def by simp
qed

lemma chunks_not_one:
  assumes "length (blank_parts t) < 2"
  shows "length (chunk_loop t (chunk_starts t) (blank_parts t)) \<noteq> 1"
  using chunks_blank[of t] chunks_nonblank[OF _ assms]
  by (cases "list_all isspace t") auto

lemma split_by_chunks':
  assumes "length (dash_parts t) < 2" and "length (blank_parts t) < 2"
  shows "split_into_segments t = chunk_loop t (chunk_starts t) (blank_parts t)"
proof -
  define c where "c = chunk_loop t (chunk_starts t) (blank_parts t)"
  have "length c \<noteq> 1" unfolding c_def using assms(2) by (rule chunks_not_one)
  moreover have "length c \<le> 5"
    using chunks_blank[of t] chunks_nonblank[OF _ assms(2)]
    by (cases "list_all isspace t") (auto simp: c_def)
  ultimately show ?thesis
    using split_by_chunks[OF assms] by (simp add: c_def[symmetric] Let_def)
qed

lemma split_into_segments_blank:
  assumes "list_all isspace t"
  shows "split_into_segments t = []"
proof -
  have "dash_parts t = []" "blank_parts t = []"
    using assms by (simp_all add: dash_parts_blank blank_parts_blank)
  then show ?thesis
    using split_by_chunks'[of t] chunks_blank[OF assms] by simp
qed

lemma split_into_segments_nonblank:
  assumes "\<not> list_all isspace t"
  shows "2 \<le> length (split_into_segments t) \<and> length (split_into_segments t) \<le> 5"
proof (cases "2 \<le> length (dash_parts t)")
  case True
  then show ?thesis by (simp add: split_by_dashes)
next
  case False
  then have d: "length (dash_parts t) < 2" by simp
  show ?thesis
  proof (cases "2 \<le> length (blank_parts t)")
    case True
    with d show ?thesis by (simp add: split_by_blank_lines)
  next
    case False
    then have b: "length (blank_parts t) < 2" by simp
    show ?thesis
      using chunks_nonblank[OF assms b] by (simp add: split_by_chunks'[OF d b])
  qed
qed

lemma split_into_segments_not_one: "length (split_into_segments t) \<noteq> 1"
  using split_into_segments_blank[of t] split_into_segments_nonblank[of t]
  by (cases "list_all isspace t") auto

lemma split_into_segments_elems:
  assumes "x \<in> set (split_into_segments t)"
  shows "strip x \<noteq> []"
proof -
  have nb: "\<not> list_all isspace t"
    using assms split_into_segments_blank[of t] by auto
  have dp: "\<And>y. y \<in> set (dash_parts t) \<Longrightarrow> strip y \<noteq> []"
    using strip_strip_nonempty by (auto simp: dash_parts_def)
  have bp: "\<And>y. y \<in> set (blank_parts t) \<Longrightarrow> strip y \<noteq> []"
    using strip_strip_nonempty by (auto simp: blank_parts_def)
  show ?thesis
  proof (cases "2 \<le> length (dash_parts t)")
    case True
    with assms dp show ?thesis by (auto simp: split_by_dashes dest: in_set_takeD)
  next
    case False
    then have d: "length (dash_parts t) < 2" by simp
    show ?thesis
    proof (cases "2 \<le> length (blank_parts t)")
      case True
      with d assms bp show ?thesis by (auto simp: split_by_blank_lines dest: in_set_takeD)
    next
      case False
      then have b: "length (blank_parts t) < 2" by simp
      define c where "c = chunk_loop t (chunk_starts t) (blank_parts t)"
      have "split_into_segments t = c"
        unfolding c_def using d b by (rule split_by_chunks')
      with assms have "x \<in> set c" by simp
      then have "x \<in> set (blank_parts t) \<or> (x \<noteq> [] \<and> (\<exists>k. x = strip (take chunk_size (drop k t))))"
        unfolding c_def by (rule chunk_loop_elems)
      then show ?thesis
        using bp strip_strip_nonempty by auto
    qed
  qed
qed

section \<open>The claims about the segmenter\<close>

text \<open>
  C2 (the code departs from it). The claim: for every text, the empty one included,
  the segmenter returns between 2 and 5 segments, none of them empty after trimming.
  On the empty text no strategy finds a part, the forced split at the middle is not
  reached (it needs exactly one segment), and the segmenter returns no segment at all.
\<close>

theorem split_into_segments_empty_text: "split_into_segments [] = []"
  by (simp add: split_into_segments_blank)

text \<open>
  C5 (the code departs from it). The claim: \<open>"Hello world"\<close> is split at its middle into
  two halves. The single paragraph is kept as the first segment, the chunk loop appends
  the first chunk, which is the whole text again, and the forced split is not reached:
  the result is the text twice.
\<close>

theorem split_into_segments_hello_world:
  "split_into_segments ''Hello world'' = [''Hello world'', ''Hello world'']"
  by code_simp

text \<open>
  What holds of the segmenter: on a text with a character that is not white space it
  returns between 2 and 5 segments, each of them non-empty after trimming; on any other
  text it returns none.
\<close>

theorem split_into_segments_contract:
  "(strip t \<noteq> [] \<longrightarrow>
      2 \<le> length (split_into_segments t) \<and> length (split_into_segments t) \<le> 5
      \<and> list_all (\<lambda>x. strip x \<noteq> []) (split_into_segments t))
   \<and> (strip t = [] \<longrightarrow> split_into_segments t = [])"
  using split_into_segments_nonblank[of t] split_into_segments_blank[of t]
    split_into_segments_elems[of _ t]
  by (auto simp: strip_Nil_iff list_all_iff)

theorem split_into_segments_contract_witness:
  "strip ''a\<newline>\<newline>b'' \<noteq> [] \<and> split_into_segments ''a\<newline>\<newline>b'' = [''a'', ''b'']
   \<and> 2 \<le> length (split_into_segments ''a\<newline>\<newline>b'')
   \<and> list_all (\<lambda>x. strip x \<noteq> []) (split_into_segments ''a\<newline>\<newline>b'')"
proof -
  have n: "strip ''a\<newline>\<newline>b'' \<noteq> []" by code_simp
  have e: "split_into_segments ''a\<newline>\<newline>b'' = [''a'', ''b'']" by code_simp
  from n e split_into_segments_contract[of "''a\<newline>\<newline>b''"] show ?thesis by blast
qed

section \<open>Properties of the message builder\<close>

lemma split_into_segments_length_le: "length (split_into_segments t) \<le> 5"
  using split_into_segments_blank[of t] split_into_segments_nonblank[of t]
  by (cases "list_all isspace t") auto

lemma split_into_segments_zero_or_two:
  "split_into_segments t = [] \<or> 2 \<le> length (split_into_segments t)"
  using split_into_segments_blank[of t] split_into_segments_nonblank[of t]
  by (cases "list_all isspace t") auto

lemma section_message_role: "role (section_message m) = role_map (fst m)"
  by (simp add: section_message_def Let_def)

lemma section_message_system_content:
  "role_map (fst m) = ''system'' \<Longrightarrow>
     content (section_message m) = split_into_segments (strip (snd m))"
  using split_into_segments_not_one[of "strip (snd m)"]
    split_into_segments_length_le[of "strip (snd m)"]
  by (simp add: section_message_def Let_def)

lemma ensure_system_segments_split:
  assumes "role m = ''system'' \<longrightarrow> content m = split_into_segments t"
  shows "ensure_system_segments m = m"
proof (cases "role m = ''system'' \<and> length (content m) < 2")
  case False
  then show ?thesis by (auto simp: ensure_system_segments_def)
next
  case True
  with assms have c: "content m = split_into_segments t" by simp
  with True split_into_segments_zero_or_two[of t] have e: "content m = []" by auto
  have "split_into_segments [] = []" by (simp add: split_into_segments_blank)
  with True e show ?thesis
    by (simp add: ensure_system_segments_def Let_def)
qed

lemma ensure_section_message: "ensure_system_segments (section_message m) = section_message m"
  by (rule ensure_system_segments_split[where t = "strip (snd m)"])
     (simp add: section_message_role section_message_system_content)

lemma ensure_fallback_messages:
  "map ensure_system_segments (fallback_messages t) = fallback_messages t"
proof -
  have "\<And>m. m \<in> set (fallback_messages t) \<Longrightarrow> ensure_system_segments m = m"
    by (rule ensure_system_segments_split[where t = t])
       (auto simp: fallback_messages_def Let_def)
  then show ?thesis by (simp add: map_idI)
qed

lemma parse_markdown_segments_Some:
  "parse_markdown_segments t = Some ps \<Longrightarrow>
     ps = map section_message (find_sections True (replace_cr (replace_crlf t)))"
  by (auto simp: parse_markdown_segments_def Let_def split: if_splits)

lemma build_messages_labelled:
  assumes "parse_markdown_segments t = Some ps"
  shows "build_messages t = drop_assistant ps"
proof -
  have "\<And>m. m \<in> set (drop_assistant ps) \<Longrightarrow> ensure_system_segments m = m"
    using parse_markdown_segments_Some[OF assms]
    by (auto simp: drop_assistant_def ensure_section_message)
  then show ?thesis using assms by (simp add: build_messages_def map_idI)
qed

lemma build_messages_unlabelled:
  "parse_markdown_segments t = None \<Longrightarrow> build_messages t = fallback_messages t"
  by (simp add: build_messages_def ensure_fallback_messages)

lemma strip_Nil: "strip [] = []"
  by (simp add: strip_def)

lemma strip_strip_Nil_iff: "strip (strip s) = [] \<longleftrightarrow> strip s = []"
proof (cases "strip s = []")
  case True
  then show ?thesis by (simp add: strip_Nil)
next
  case False
  then show ?thesis using strip_strip_nonempty[of s] by simp
qed

lemma split_into_segments_by_strip:
  "(strip t \<noteq> [] \<longrightarrow> 2 \<le> length (split_into_segments t) \<and> length (split_into_segments t) \<le> 5)
   \<and> (strip t = [] \<longrightarrow> split_into_segments t = [])"
  using split_into_segments_nonblank[of t] split_into_segments_blank[of t]
  by (simp add: strip_Nil_iff)

section \<open>The claims about the message builder\<close>

text \<open>
  C4. A document without labelled sections (\<open>_parse_markdown_segments\<close> returns \<open>None\<close>)
  gives exactly three messages, in the order system, user, assistant: the segments of the
  system message are the segmenter's output for the whole document, the user message has
  the two fixed segments \<open>CURRENT PROVIDER QUESTION:\<close> and the placeholder of the
  provider's question, and the assistant message has the one fixed acknowledgement. These
  are the messages after the loop that enforces the segments of system messages, which
  changes nothing here.
\<close>

theorem fallback_mode_three_messages:
  assumes "parse_markdown_segments doc = None"
  shows "build_messages doc =
     [\<lparr>role = ''system'', template_format = ''jinja2'',
        input_variables = [''provider_question''], content = split_into_segments doc\<rparr>,
      \<lparr>role = ''user'', template_format = ''jinja2'',
        input_variables = [''provider_question''],
        content = [''CURRENT PROVIDER QUESTION:'', ''{{ provider_question }}'']\<rparr>,
      \<lparr>role = ''assistant'', template_format = ''jinja2'',
        input_variables = [''provider_question''],
        content = [''Understood. I will respond as the patient persona following these guidelines.'']\<rparr>]"
  using assms by (simp add: build_messages_unlabelled fallback_messages_def Let_def)

theorem fallback_mode_three_messages_witness:
  "parse_markdown_segments ''Hello world'' = None \<and>
   map role (build_messages ''Hello world'') = [''system'', ''user'', ''assistant''] \<and>
   map content (build_messages ''Hello world'') =
     [split_into_segments ''Hello world'',
      [''CURRENT PROVIDER QUESTION:'', ''{{ provider_question }}''],
      [''Understood. I will respond as the patient persona following these guidelines.'']]"
proof -
  have n: "parse_markdown_segments ''Hello world'' = None" by code_simp
  show ?thesis
    using n fallback_mode_three_messages[OF n] by simp
qed

text \<open>
  C10. In labelled mode the messages of the publisher are the parsed messages without those
  of role assistant, so no message of that role is left before any delivery attempt; in
  the unlabelled mode the assistant message that was made up stays. Every payload of
  \<open>publish_prompt_in_folder\<close> is built from \<open>build_messages\<close>.
\<close>

theorem assistant_dropped_in_labelled_mode:
  "(\<forall>ps. parse_markdown_segments doc = Some ps \<longrightarrow>
       build_messages doc = filter (\<lambda>m. role m \<noteq> ''assistant'') ps
       \<and> ''assistant'' \<notin> set (map role (build_messages doc)))
   \<and> (parse_markdown_segments doc = None \<longrightarrow>
       ''assistant'' \<in> set (map role (build_messages doc)))"
proof (intro conjI allI impI)
  fix ps assume p: "parse_markdown_segments doc = Some ps"
  then show "build_messages doc = filter (\<lambda>m. role m \<noteq> ''assistant'') ps"
    by (simp add: build_messages_labelled drop_assistant_def)
  then show "''assistant'' \<notin> set (map role (build_messages doc))"
    by auto
next
  assume "parse_markdown_segments doc = None"
  then show "''assistant'' \<in> set (map role (build_messages doc))"
    by (simp add: build_messages_unlabelled fallback_messages_def Let_def)
qed

theorem assistant_dropped_in_labelled_mode_witness:
  "parse_markdown_segments ''### System\<newline>a\<newline>### Assistant\<newline>b\<newline>### User\<newline>c'' =
     Some [section_message (''System'', ''a''), section_message (''Assistant'', ''b''),
           section_message (''User'', ''c'')]
   \<and> map role (build_messages ''### System\<newline>a\<newline>### Assistant\<newline>b\<newline>### User\<newline>c'') = [''system'', ''user'']
   \<and> parse_markdown_segments ''Hello world'' = None
   \<and> ''assistant'' \<in> set (map role (build_messages ''Hello world''))"
proof -
  let ?d = "''### System\<newline>a\<newline>### Assistant\<newline>b\<newline>### User\<newline>c''"
  have p: "parse_markdown_segments ?d =
     Some [section_message (''System'', ''a''), section_message (''Assistant'', ''b''),
           section_message (''User'', ''c'')]"
    by code_simp
  have n: "parse_markdown_segments ''Hello world'' = None" by code_simp
  have r: "map role (filter (\<lambda>m. role m \<noteq> ''assistant'')
      [section_message (''System'', ''a''), section_message (''Assistant'', ''b''),
       section_message (''User'', ''c'')]) = [''system'', ''user'']"
    by (simp add: section_message_role role_map_def)
  from assistant_dropped_in_labelled_mode[of ?d] p r
  have "map role (build_messages ?d) = [''system'', ''user'']" by simp
  moreover from assistant_dropped_in_labelled_mode[of "''Hello world''"] n
  have "''assistant'' \<in> set (map role (build_messages ''Hello world''))" by blast
  ultimately show ?thesis using p n by blast
qed

text \<open>
  C3 (the code departs from it). The claim: for every document, in both modes, every
  system message carries at least two segments when the first delivery is attempted, as
  the comments of the source say (\<open>Ensure system has >= 2 segments before attempting
  publish\<close>, \<open>Guarantee at least 2 segments for system message\<close>). For the empty
  document (the unlabelled mode) and for a document with an empty \<open>### System\<close> section
  (the labelled mode) the system message carries no segment: the segmenter returns none
  for the empty text (the defect of C2), and the loop that enforces the segments joins
  nothing, segments the empty text again and skips its forced split.
\<close>

theorem system_segments_empty_document:
  "build_messages [] =
     [\<lparr>role = ''system'', template_format = ''jinja2'',
        input_variables = [''provider_question''], content = []\<rparr>,
      \<lparr>role = ''user'', template_format = ''jinja2'',
        input_variables = [''provider_question''],
        content = [''CURRENT PROVIDER QUESTION:'', ''{{ provider_question }}'']\<rparr>,
      \<lparr>role = ''assistant'', template_format = ''jinja2'',
        input_variables = [''provider_question''],
        content = [''Understood. I will respond as the patient persona following these guidelines.'']\<rparr>]
   \<and> build_messages ''### System\<newline>'' =
     [\<lparr>role = ''system'', template_format = ''jinja2'', input_variables = [], content = []\<rparr>]"
  by code_simp

text \<open>
  What holds of the code: a system message whose text has a character that is not white
  space carries between 2 and 5 segments when the first delivery is attempted; its text is
  the document in the unlabelled mode and the body of its section in the labelled mode.
\<close>

theorem system_segments_with_text:
  "(parse_markdown_segments doc = None \<longrightarrow>
      role (hd (build_messages doc)) = ''system''
      \<and> content (hd (build_messages doc)) = split_into_segments doc
      \<and> (strip doc \<noteq> [] \<longrightarrow>
            2 \<le> length (content (hd (build_messages doc)))
            \<and> length (content (hd (build_messages doc))) \<le> 5))
   \<and> (\<forall>ps. parse_markdown_segments doc = Some ps \<longrightarrow>
      build_messages doc =
        drop_assistant (map section_message (find_sections True (replace_cr (replace_crlf doc))))
      \<and> (\<forall>s \<in> set (find_sections True (replace_cr (replace_crlf doc))).
            role (section_message s) = ''system'' \<and> strip (snd s) \<noteq> [] \<longrightarrow>
              2 \<le> length (content (section_message s))
              \<and> length (content (section_message s)) \<le> 5))"
proof (intro conjI allI impI ballI)
  assume n: "parse_markdown_segments doc = None"
  have b: "build_messages doc = fallback_messages doc"
    using n by (rule build_messages_unlabelled)
  show "role (hd (build_messages doc)) = ''system''"
    unfolding b by (simp add: fallback_messages_def Let_def)
  show c: "content (hd (build_messages doc)) = split_into_segments doc"
    unfolding b by (simp add: fallback_messages_def Let_def)
  {
    assume "strip doc \<noteq> []"
    then show "2 \<le> length (content (hd (build_messages doc)))"
      and "length (content (hd (build_messages doc))) \<le> 5"
      unfolding c using split_into_segments_by_strip[of doc] by simp_all
  }
next
  fix ps assume p: "parse_markdown_segments doc = Some ps"
  show "build_messages doc =
        drop_assistant (map section_message (find_sections True (replace_cr (replace_crlf doc))))"
    using build_messages_labelled[OF p] parse_markdown_segments_Some[OF p] by simp
next
  fix ps s
  assume r: "role (section_message s) = ''system'' \<and> strip (snd s) \<noteq> []"
  then have c: "content (section_message s) = split_into_segments (strip (snd s))"
    by (simp add: section_message_role section_message_system_content)
  from r show "2 \<le> length (content (section_message s))"
    and "length (content (section_message s)) \<le> 5"
    unfolding c using split_into_segments_by_strip[of "strip (snd s)"]
    by (simp_all add: strip_strip_Nil_iff)
qed

text \<open>
  The same on the document \<open>"Hello world"\<close> in the unlabelled mode.
\<close>

theorem system_segments_with_text_witness:
  "parse_markdown_segments ''Hello world'' = None \<and> strip ''Hello world'' \<noteq> []
   \<and> role (hd (build_messages ''Hello world'')) = ''system''
   \<and> 2 \<le> length (content (hd (build_messages ''Hello world'')))
   \<and> length (content (hd (build_messages ''Hello world''))) \<le> 5"
proof -
  have n: "parse_markdown_segments ''Hello world'' = None" by code_simp
  have s: "strip ''Hello world'' \<noteq> []" by code_simp
  from n s system_segments_with_text[of "''Hello world''"] show ?thesis by blast
qed

section \<open>Properties of the publisher\<close>

lemma legacy_attempts_chain:
  "legacy_attempts srv folder_id prompt_name api_key commit_message metadata messages w =
     (let c = attempt_chain srv
                [request_rest folder_id prompt_name api_key commit_message metadata messages,
                 request_legacy folder_id prompt_name api_key messages,
                 request_folder folder_id prompt_name api_key messages,
                 request_completion folder_id prompt_name api_key messages] [d0] w
      in (chain_result (fst c), snd c))"
  by (simp add: legacy_attempts_def chain_result_def Let_def split: prod.splits sum.splits)

lemma legacy_attempts_chain0:
  "legacy_attempts srv folder_id prompt_name api_key commit_message metadata messages w =
     (let c = attempt_chain srv
                [request_rest folder_id prompt_name api_key commit_message metadata messages,
                 request_legacy folder_id prompt_name api_key messages,
                 request_folder folder_id prompt_name api_key messages,
                 request_completion folder_id prompt_name api_key messages] [] w
      in (chain_result (fst c), snd c))"
  by (simp add: legacy_attempts_def chain_result_def Let_def split: prod.splits sum.splits)

lemma publish_chain:
  "publish_prompt_in_folder srv folder_id prompt_name content_text api_key commit_message
       metadata debug force_legacy False w =
     (let c = attempt_chain srv
                (planned_requests folder_id prompt_name content_text api_key commit_message
                   metadata force_legacy) [] w
      in (chain_result (fst c), snd c))"
proof (cases force_legacy)
  case True
  then show ?thesis
    by (simp add: publish_prompt_in_folder_def planned_requests_def Let_def legacy_attempts_chain0)
next
  case False
  then show ?thesis
    unfolding publish_prompt_in_folder_def planned_requests_def Let_def
    by (simp add: legacy_attempts_chain[where ?d0.0 = "snd (projr (fst (post_json srv (request_v2 folder_id prompt_name api_key commit_message metadata (build_messages content_text)) w)))"]
          chain_result_def Let_def split: prod.splits sum.splits)
qed

lemma attempt_chain_run:
  "fst (attempt_chain srv rqs acc w) =
     (let outs = run_service srv (service_state w) rqs;
          k = length (takeWhile attempt_failed outs)
      in if k = length rqs then Inr (Inr (acc @ map outcome_data outs))
         else (case outs ! k of
                 Responded r \<Rightarrow> Inr (Inl (response_data r))
               | Failed \<Rightarrow> Inl TransportError))
   \<and> sent (snd (attempt_chain srv rqs acc w)) =
       sent w @ take (Suc (length (takeWhile attempt_failed
                                     (run_service srv (service_state w) rqs)))) rqs"
proof (induction rqs arbitrary: acc w)
  case Nil
  then show ?case by simp
next
  case (Cons rq rqs)
  obtain out s' where o: "srv (service_state w) rq = (out, s')" by (cases "srv (service_state w) rq")
  define w' where "w' = \<lparr>service_state = s', sent = sent w @ [rq]\<rparr>"
  have s: "send srv rq w = (out, w')" by (simp add: send_def o w'_def)
  show ?case
  proof (cases out)
    case Failed
    with s o show ?thesis
      by (simp add: post_json_def attempt_failed_def w'_def)
  next
    case (Responded r)
    show ?thesis
    proof (cases "ok_status (status_code r)")
      case True
      with s o Responded show ?thesis
        by (simp add: post_json_def attempt_failed_def w'_def)
    next
      case False
      have "attempt_chain srv (rq # rqs) acc w = attempt_chain srv rqs (acc @ [response_data r]) w'"
        using s Responded False by (simp add: post_json_def)
      moreover have "service_state w' = s'" "sent w' = sent w @ [rq]" by (simp_all add: w'_def)
      ultimately show ?thesis
        using Cons.IH[of "acc @ [response_data r]" w'] o Responded False
        by (simp add: attempt_failed_def outcome_data_def Let_def)
    qed
  qed
qed

lemma run_service_length: "length (run_service srv s rqs) = length rqs"
  by (induction rqs arbitrary: s) (auto split: prod.splits)

lemma list5_nth:
  "length xs = 5 \<Longrightarrow> xs = [xs ! 0, xs ! 1, xs ! 2, xs ! 3, xs ! 4]"
  by (auto simp: list_eq_iff_nth_eq less_Suc_eq eval_nat_numeral)

lemma list4_nth:
  "length xs = 4 \<Longrightarrow> xs = [xs ! 0, xs ! 1, xs ! 2, xs ! 3]"
  by (auto simp: list_eq_iff_nth_eq less_Suc_eq eval_nat_numeral)

lemma planned_requests_length:
  "length (planned_requests folder_id prompt_name content_text api_key commit_message metadata
             force_legacy) = (if force_legacy then 4 else 5)"
  by (simp add: planned_requests_def Let_def)

lemma publish_sent:
  "sent (snd (publish_prompt_in_folder srv folder_id prompt_name content_text api_key
                commit_message metadata debug force_legacy False w)) =
   sent w @ take (Suc (length (takeWhile attempt_failed
       (run_service srv (service_state w)
          (planned_requests folder_id prompt_name content_text api_key commit_message metadata
             force_legacy)))))
     (planned_requests folder_id prompt_name content_text api_key commit_message metadata
        force_legacy)"
  by (simp add: publish_chain Let_def attempt_chain_run)

lemma publish_result:
  "fst (publish_prompt_in_folder srv folder_id prompt_name content_text api_key
                commit_message metadata debug force_legacy False w) =
   chain_result
     (let rqs = planned_requests folder_id prompt_name content_text api_key commit_message
                  metadata force_legacy;
          outs = run_service srv (service_state w) rqs;
          k = length (takeWhile attempt_failed outs)
      in if k = length rqs then Inr (Inr (map outcome_data outs))
         else (case outs ! k of
                 Responded r \<Rightarrow> Inr (Inl (response_data r))
               | Failed \<Rightarrow> Inl TransportError))"
  using attempt_chain_run[of srv "planned_requests folder_id prompt_name content_text api_key commit_message metadata force_legacy" "[]" w]
  by (simp add: publish_chain Let_def)

lemma run_service_constant:
  "run_service (constant_service out) s rqs = replicate (length rqs) out"
  by (induction rqs) (simp_all add: constant_service_def)

lemma planned_requests_nonempty:
  "planned_requests folder_id prompt_name content_text api_key commit_message metadata
     force_legacy \<noteq> []"
  by (simp add: planned_requests_def Let_def)

lemma attempt_failed_Responded: "attempt_failed out \<Longrightarrow> \<exists>r. out = Responded r"
  by (cases out) (simp_all add: attempt_failed_def)

lemma planned_requests_rest:
  "planned_requests folder_id prompt_name content_text api_key commit_message metadata
     force_legacy ! (if force_legacy then 0 else 1) =
   request_rest folder_id prompt_name api_key commit_message metadata
     (build_messages content_text)"
  by (simp add: planned_requests_def Let_def)

section \<open>The claims about the publisher\<close>

text \<open>
  C1, amended. With \<open>force_legacy\<close> unset and the dry run off, the requests sent are, in
  this order, the first \<open>k + 1\<close> of: (1) the v2 endpoint, (2) the REST endpoint with its
  envelope, (3) the legacy endpoint, (4) the endpoint of the folder, (5) the legacy endpoint
  with the completion payload, where \<open>k\<close> is the number of attempts, from the first on,
  that the service answers with a status other than 200 and 201. So a later attempt is
  made only after every earlier one got such an answer. The first other outcome ends the
  call: an answer with the status 200 or 201 is returned as its data (its JSON, or its text
  under \<open>raw\<close> when it cannot be parsed), and a transport error leaves the function as an
  exception. When all five attempts fail, the data of attempts 2 to 5 are returned. In
  particular, when attempts 1 to 4 fail and attempt 5 succeeds, the result is the data of
  attempt 5.
\<close>

theorem publish_attempt_order:
  "let messages = build_messages content_text;
       rqs = [request_v2 folder_id prompt_name api_key commit_message metadata messages,
              request_rest folder_id prompt_name api_key commit_message metadata messages,
              request_legacy folder_id prompt_name api_key messages,
              request_folder folder_id prompt_name api_key messages,
              request_completion folder_id prompt_name api_key messages];
       outs = run_service srv (service_state w) rqs;
       k = length (takeWhile attempt_failed outs);
       p = publish_prompt_in_folder srv folder_id prompt_name content_text api_key
             commit_message metadata debug False False w
   in sent (snd p) = sent w @ take (Suc k) rqs
      \<and> fst p =
          (if k = 5 then
             Inr (JDict [(''rest'', outcome_data (outs ! 1)),
                         (''legacy'', outcome_data (outs ! 2)),
                         (''folder'', outcome_data (outs ! 3)),
                         (''completion'', outcome_data (outs ! 4))])
           else (case outs ! k of
                   Responded r \<Rightarrow> Inr (response_data r)
                 | Failed \<Rightarrow> Inl TransportError))"
proof -
  define messages where "messages = build_messages content_text"
  define rqs where "rqs = [request_v2 folder_id prompt_name api_key commit_message metadata messages,
              request_rest folder_id prompt_name api_key commit_message metadata messages,
              request_legacy folder_id prompt_name api_key messages,
              request_folder folder_id prompt_name api_key messages,
              request_completion folder_id prompt_name api_key messages]"
  define outs where "outs = run_service srv (service_state w) rqs"
  define k where "k = length (takeWhile attempt_failed outs)"
  define p where "p = publish_prompt_in_folder srv folder_id prompt_name content_text api_key
             commit_message metadata debug False False w"
  have pl: "planned_requests folder_id prompt_name content_text api_key commit_message metadata
              False = rqs"
    by (simp add: planned_requests_def rqs_def messages_def Let_def)
  have lr: "length rqs = 5"
    by (simp add: rqs_def)
  have len: "length outs = 5" "length rqs = 5"
    unfolding outs_def run_service_length using lr by simp_all
  have s: "sent (snd p) = sent w @ take (Suc k) rqs"
    unfolding p_def publish_sent pl k_def outs_def ..
  have r: "fst p = chain_result
     (if k = 5 then Inr (Inr (map outcome_data outs))
      else (case outs ! k of
              Responded r \<Rightarrow> Inr (Inl (response_data r))
            | Failed \<Rightarrow> Inl TransportError))"
    unfolding p_def publish_result pl using len
    by (simp add: Let_def k_def outs_def)
  have m: "map outcome_data outs = [outcome_data (outs ! 0), outcome_data (outs ! 1),
      outcome_data (outs ! 2), outcome_data (outs ! 3), outcome_data (outs ! 4)]"
    using list5_nth[of "map outcome_data outs"] len by simp
  have "fst p =
          (if k = 5 then
             Inr (JDict [(''rest'', outcome_data (outs ! 1)),
                         (''legacy'', outcome_data (outs ! 2)),
                         (''folder'', outcome_data (outs ! 3)),
                         (''completion'', outcome_data (outs ! 4))])
           else (case outs ! k of
                   Responded r \<Rightarrow> Inr (response_data r)
                 | Failed \<Rightarrow> Inl TransportError))"
  proof (cases "k = 5")
    case True
    then show ?thesis unfolding r by (simp add: chain_result_def m)
  next
    case False
    then show ?thesis unfolding r by (simp add: chain_result_def split: outcome.splits)
  qed
  with s show ?thesis
    unfolding Let_def messages_def rqs_def outs_def k_def p_def by blast
qed

text \<open>
  C1, the case the claim names: a service failing the attempts 1 to 4 and succeeding on
  the fifth. The call returns the body of the fifth attempt after five requests.
\<close>

theorem publish_attempt_order_witness:
  "fst (publish_prompt_in_folder fails_then_succeeds 7 ''n'' ''Hello world'' ''k'' None None
          False False False \<lparr>service_state = 0, sent = []\<rparr>) = Inr (JDict [(''id'', JInt 99)])
   \<and> length (sent (snd (publish_prompt_in_folder fails_then_succeeds 7 ''n'' ''Hello world''
          ''k'' None None False False False \<lparr>service_state = 0, sent = []\<rparr>))) = 5"
  using publish_attempt_order[where srv = fails_then_succeeds
          and w = "\<lparr>service_state = 0, sent = []\<rparr>" and folder_id = 7
          and prompt_name = "''n''" and api_key = "''k''" and commit_message = None
          and metadata = None and content_text = "''Hello world''" and debug = False]
  by (simp add: Let_def fails_then_succeeds_def attempt_failed_def ok_status_def
        response_data_def)

text \<open>
  C1, as stated, fails. The claim: an attempt fails on a status that is not 2xx or on a
  response that cannot be parsed, a later attempt is made only after every earlier one
  failed, and the first success is returned. An answer with the status 202 and a body that
  parses has not failed in these words, yet all five requests are sent; an answer with the
  status 200 and a body that does not parse has failed in these words, yet the call
  returns it (as \<open>{"raw": text}\<close>) after one request.
\<close>

theorem publish_attempt_order_counterexample:
  "\<not> spec_attempt_failed \<lparr>status_code = 202, resp_text = ''{}'', resp_json = Some (JDict [])\<rparr>
   \<and> length (sent (snd (publish_prompt_in_folder
         (constant_service (Responded \<lparr>status_code = 202, resp_text = ''{}'',
                                        resp_json = Some (JDict [])\<rparr>))
         7 ''n'' ''Hello world'' ''k'' None None False False False
         \<lparr>service_state = (), sent = []\<rparr>))) = 5
   \<and> spec_attempt_failed \<lparr>status_code = 200, resp_text = ''<html>'', resp_json = None\<rparr>
   \<and> fst (publish_prompt_in_folder
         (constant_service (Responded \<lparr>status_code = 200, resp_text = ''<html>'',
                                        resp_json = None\<rparr>))
         7 ''n'' ''Hello world'' ''k'' None None False False False
         \<lparr>service_state = (), sent = []\<rparr>) = Inr (JDict [(''raw'', JStr ''<html>'')])
   \<and> length (sent (snd (publish_prompt_in_folder
         (constant_service (Responded \<lparr>status_code = 200, resp_text = ''<html>'',
                                        resp_json = None\<rparr>))
         7 ''n'' ''Hello world'' ''k'' None None False False False
         \<lparr>service_state = (), sent = []\<rparr>))) = 1"
  by (simp add: spec_attempt_failed_def publish_sent publish_result run_service_constant
        planned_requests_length planned_requests_nonempty attempt_failed_def ok_status_def
        chain_result_def response_data_def Let_def)

text \<open>
  C7, amended. When every attempt of a call (dry run off) is answered with a status other
  than 200 and 201, the call raises no error: it sends all its requests and returns the
  dictionary with the keys \<open>rest\<close>, \<open>legacy\<close>, \<open>folder\<close> and \<open>completion\<close>, holding the
  data of the attempts 2 to 5 (the JSON of the answer, or its text under \<open>raw\<close>). The
  dictionary has no key \<open>id\<close>, which is what the caller tests.
\<close>

theorem publish_all_attempts_failed:
  assumes "list_all attempt_failed
     (run_service srv (service_state w)
        (planned_requests folder_id prompt_name content_text api_key commit_message metadata
           force_legacy))"
  shows "\<exists>rR r2 rF rC.
     drop (if force_legacy then 0 else 1)
       (run_service srv (service_state w)
          (planned_requests folder_id prompt_name content_text api_key commit_message metadata
             force_legacy))
       = [Responded rR, Responded r2, Responded rF, Responded rC]
     \<and> fst (publish_prompt_in_folder srv folder_id prompt_name content_text api_key
              commit_message metadata debug force_legacy False w)
         = Inr (JDict [(''rest'', response_data rR), (''legacy'', response_data r2),
                       (''folder'', response_data rF), (''completion'', response_data rC)])
     \<and> \<not> has_id (JDict [(''rest'', response_data rR), (''legacy'', response_data r2),
                          (''folder'', response_data rF), (''completion'', response_data rC)])
     \<and> sent (snd (publish_prompt_in_folder srv folder_id prompt_name content_text api_key
                     commit_message metadata debug force_legacy False w))
         = sent w @ planned_requests folder_id prompt_name content_text api_key commit_message
                      metadata force_legacy"
proof -
  define rqs where "rqs = planned_requests folder_id prompt_name content_text api_key
                            commit_message metadata force_legacy"
  define outs where "outs = run_service srv (service_state w) rqs"
  define p where "p = publish_prompt_in_folder srv folder_id prompt_name content_text api_key
              commit_message metadata debug force_legacy False w"
  have all: "list_all attempt_failed outs" using assms by (simp add: outs_def rqs_def)
  have lo: "length outs = length rqs" by (simp add: outs_def run_service_length)
  have lr: "length rqs = (if force_legacy then 4 else 5)"
    by (simp add: rqs_def planned_requests_length)
  have tw: "takeWhile attempt_failed outs = outs"
    using all by (simp add: list_all_iff)
  have s: "sent (snd p) = sent w @ rqs"
    unfolding p_def publish_sent rqs_def[symmetric] outs_def[symmetric] tw by (simp add: lo)
  have r: "fst p = chain_result (Inr (Inr (map outcome_data outs)))"
    unfolding p_def publish_result rqs_def[symmetric] Let_def outs_def[symmetric] tw
    by (simp add: lo)
  define ds where "ds = drop (if force_legacy then 0 else 1) outs"
  have lds: "length ds = 4" by (simp add: ds_def lo lr)
  have "list_all attempt_failed ds"
    using all by (auto simp: ds_def list_all_iff dest: in_set_dropD)
  then have nth: "\<And>i. i < 4 \<Longrightarrow> \<exists>r. ds ! i = Responded r"
    using lds by (auto simp: list_all_length intro: attempt_failed_Responded)
  obtain rR where e0: "ds ! 0 = Responded rR" using nth[of 0] by auto
  obtain r2 where e1: "ds ! 1 = Responded r2" using nth[of 1] by auto
  obtain rF where e2: "ds ! 2 = Responded rF" using nth[of 2] by auto
  obtain rC where e3: "ds ! 3 = Responded rC" using nth[of 3] by auto
  note el = e0 e1 e2 e3
  have dsl: "ds = [Responded rR, Responded r2, Responded rF, Responded rC]"
    using list4_nth[OF lds] el by simp
  have "drop (length (map outcome_data outs) - 4) (map outcome_data outs) = map outcome_data ds"
    by (simp add: ds_def lo lr drop_map)
  then have res: "fst p = Inr (JDict [(''rest'', response_data rR), (''legacy'', response_data r2),
                       (''folder'', response_data rF), (''completion'', response_data rC)])"
    unfolding r by (simp add: chain_result_def dsl outcome_data_def)
  have "\<not> has_id (JDict [(''rest'', response_data rR), (''legacy'', response_data r2),
                          (''folder'', response_data rF), (''completion'', response_data rC)])"
    by (simp add: has_id_def)
  with dsl res s show ?thesis
    unfolding ds_def outs_def rqs_def p_def by blast
qed

text \<open>
  C7, amended, on a service that answers every request with the status 500 and a body
  that is not JSON.
\<close>

theorem publish_all_attempts_failed_witness:
  "list_all attempt_failed
     (run_service (constant_service
          (Responded \<lparr>status_code = 500, resp_text = ''err'', resp_json = None\<rparr>)) ()
        (planned_requests 7 ''n'' ''Hello world'' ''k'' None None False))
   \<and> fst (publish_prompt_in_folder
            (constant_service
               (Responded \<lparr>status_code = 500, resp_text = ''err'', resp_json = None\<rparr>))
            7 ''n'' ''Hello world'' ''k'' None None False False False
            \<lparr>service_state = (), sent = []\<rparr>)
       = Inr (JDict [(''rest'', JDict [(''raw'', JStr ''err'')]),
                     (''legacy'', JDict [(''raw'', JStr ''err'')]),
                     (''folder'', JDict [(''raw'', JStr ''err'')]),
                     (''completion'', JDict [(''raw'', JStr ''err'')])])"
proof -
  let ?r = "\<lparr>status_code = 500, resp_text = ''err'', resp_json = None\<rparr>"
  let ?w = "\<lparr>service_state = (), sent = []\<rparr> :: unit world"
  have run: "run_service (constant_service (Responded ?r)) ()
        (planned_requests 7 ''n'' ''Hello world'' ''k'' None None False)
      = replicate 5 (Responded ?r)"
    by (simp add: run_service_constant planned_requests_length)
  have h: "list_all attempt_failed
     (run_service (constant_service (Responded ?r)) (service_state ?w)
        (planned_requests 7 ''n'' ''Hello world'' ''k'' None None False))"
    by (simp add: run attempt_failed_def ok_status_def eval_nat_numeral)
  from publish_all_attempts_failed[OF h, of False]
  have "fst (publish_prompt_in_folder (constant_service (Responded ?r))
            7 ''n'' ''Hello world'' ''k'' None None False False False ?w)
       = Inr (JDict [(''rest'', response_data ?r), (''legacy'', response_data ?r),
                     (''folder'', response_data ?r), (''completion'', response_data ?r)])"
    by (auto simp: run eval_nat_numeral)
  with h show ?thesis by (simp add: response_data_def)
qed

text \<open>
  C7, as stated, fails. The claim: when all attempts fail, no error is raised and the
  result holds the bodies or the markers of the transport errors of attempts 2 to 5. When
  the attempts fail by a transport error, the call raises it: no handler surrounds
  \<open>client.post\<close>, and there is no marker for a transport error.
\<close>

theorem publish_all_attempts_failed_counterexample:
  "run_service (constant_service Failed) ()
      (planned_requests 7 ''n'' ''Hello world'' ''k'' None None False)
     = [Failed, Failed, Failed, Failed, Failed]
   \<and> fst (publish_prompt_in_folder (constant_service Failed)
            7 ''n'' ''Hello world'' ''k'' None None False False False
            \<lparr>service_state = (), sent = []\<rparr>) = Inl TransportError
   \<and> fst (publish_prompt_in_folder (constant_service Failed)
            7 ''n'' ''Hello world'' ''k'' None None False True False
            \<lparr>service_state = (), sent = []\<rparr>) = Inl TransportError"
  by (simp add: publish_result run_service_constant planned_requests_length
        planned_requests_nonempty attempt_failed_def chain_result_def Let_def eval_nat_numeral)

text \<open>
  C6, amended. With the dry run on, the call sends no request (the world is unchanged) and
  returns the dictionary \<open>{"dry_run": True, "folder_id": folder_id, "prompt_name":
  prompt_name}\<close>. The messages are not in the result; the source prints a summary of
  them.
\<close>

theorem dry_run_result:
  "publish_prompt_in_folder srv folder_id prompt_name content_text api_key commit_message
     metadata debug force_legacy True w =
   (Inr (JDict [(''dry_run'', JBool True), (''folder_id'', JInt folder_id),
                (''prompt_name'', JStr prompt_name)]), w)"
  by (simp add: publish_prompt_in_folder_def Let_def)

text \<open>
  C6, as stated, fails. The claim: the result of a dry run contains the computed messages.
  For \<open>"Hello world"\<close> three messages are computed, and the result holds the values
  \<open>True\<close>, \<open>7\<close> and \<open>"n"\<close> only; it has no key \<open>id\<close> either, so the caller does not take
  it for a success.
\<close>

theorem dry_run_result_counterexample:
  "fst (publish_prompt_in_folder (constant_service Failed)
          7 ''n'' ''Hello world'' ''k'' None None False False True
          \<lparr>service_state = (), sent = []\<rparr>)
     = Inr (JDict [(''dry_run'', JBool True), (''folder_id'', JInt 7),
                   (''prompt_name'', JStr ''n'')])
   \<and> json_parts (JDict [(''dry_run'', JBool True), (''folder_id'', JInt 7),
                         (''prompt_name'', JStr ''n'')])
     = [JDict [(''dry_run'', JBool True), (''folder_id'', JInt 7),
               (''prompt_name'', JStr ''n'')], JBool True, JInt 7, JStr ''n'']
   \<and> map role (build_messages ''Hello world'') = [''system'', ''user'', ''assistant'']
   \<and> \<not> has_id (JDict [(''dry_run'', JBool True), (''folder_id'', JInt 7),
                        (''prompt_name'', JStr ''n'')])"
proof -
  have "map role (build_messages ''Hello world'') = [''system'', ''user'', ''assistant'']"
    by code_simp
  then show ?thesis
    by (simp add: publish_prompt_in_folder_def Let_def has_id_def)
qed

text \<open>
  C8, amended. When a call reaches the REST attempt (its second request, or its first
  under \<open>force_legacy\<close>), the body of that request holds one template under the two keys
  \<open>prompt_template\<close> and \<open>prompt_version\<close>, and the messages of the template are the
  collapsed ones: each message of the construction phase with its role, and with one
  segment, its segments joined by a blank line.
\<close>

theorem rest_attempt_body:
  "let messages = build_messages content_text;
       p = publish_prompt_in_folder srv folder_id prompt_name content_text api_key
             commit_message metadata debug force_legacy False w;
       i = length (sent w) + (if force_legacy then 0 else 1);
       template =
         JDict ([(''prompt_name'', JStr prompt_name),
                 (''folder_id'', JInt folder_id),
                 (''prompt_template'',
                    JDict [(''type'', JStr ''chat''),
                           (''messages'', JList (map message_json (map collapse_message messages))),
                           (''input_variables'', JList []),
                           (''dataset_examples'', JList [])])]
                @ commit_entry commit_message @ metadata_entry metadata)
   in (i < length (sent (snd p)) \<longrightarrow>
         req_url (sent (snd p) ! i) = API_BASE_LEGACY @ ''/rest/prompt-templates''
         \<and> req_json (sent (snd p) ! i) =
             Some (JDict [(''prompt_template'', template), (''prompt_version'', template)]))
      \<and> map role (map collapse_message messages) = map role messages
      \<and> map content (map collapse_message messages) =
          map (\<lambda>m. [join ''\<newline>\<newline>'' (content m)]) messages"
proof -
  define rqs where "rqs = planned_requests folder_id prompt_name content_text api_key
                            commit_message metadata force_legacy"
  define k where "k = length (takeWhile attempt_failed (run_service srv (service_state w) rqs))"
  define p where "p = publish_prompt_in_folder srv folder_id prompt_name content_text api_key
             commit_message metadata debug force_legacy False w"
  define j where "j = (if force_legacy then 0 else 1 :: nat)"
  have s: "sent (snd p) = sent w @ take (Suc k) rqs"
    unfolding p_def publish_sent rqs_def[symmetric] k_def ..
  have rest: "rqs ! j = request_rest folder_id prompt_name api_key commit_message metadata
     (build_messages content_text)"
    unfolding rqs_def j_def by (rule planned_requests_rest)
  have nth: "length (sent w) + j < length (sent (snd p)) \<Longrightarrow>
     sent (snd p) ! (length (sent w) + j) = rqs ! j"
    unfolding s by (simp add: nth_append)
  have body: "req_url (rqs ! j) = API_BASE_LEGACY @ ''/rest/prompt-templates''"
    "req_json (rqs ! j) =
       Some (JDict [(''prompt_template'',
          JDict ([(''prompt_name'', JStr prompt_name),
                 (''folder_id'', JInt folder_id),
                 (''prompt_template'',
                    JDict [(''type'', JStr ''chat''),
                           (''messages'', JList (map message_json (map collapse_message (build_messages content_text)))),
                           (''input_variables'', JList []),
                           (''dataset_examples'', JList [])])]
                @ commit_entry commit_message @ metadata_entry metadata)),
         (''prompt_version'',
          JDict ([(''prompt_name'', JStr prompt_name),
                 (''folder_id'', JInt folder_id),
                 (''prompt_template'',
                    JDict [(''type'', JStr ''chat''),
                           (''messages'', JList (map message_json (map collapse_message (build_messages content_text)))),
                           (''input_variables'', JList []),
                           (''dataset_examples'', JList [])])]
                @ commit_entry commit_message @ metadata_entry metadata))])"
    unfolding rest
    by (simp_all add: request_rest_def post_request_def rest_body_def rest_template_def Let_def)
  have c: "map role (map collapse_message (build_messages content_text))
             = map role (build_messages content_text)"
    "map content (map collapse_message (build_messages content_text)) =
          map (\<lambda>m. [join ''\<newline>\<newline>'' (content m)]) (build_messages content_text)"
    by (simp_all add: collapse_message_def)
  show ?thesis
    unfolding Let_def p_def[symmetric] j_def[symmetric]
    using nth body c by simp
qed

text \<open>
  C8, amended, on a call that reaches the REST attempt.
\<close>

theorem rest_attempt_body_witness:
  "1 < length (sent (snd (publish_prompt_in_folder fails_then_succeeds 7 ''n''
         ''a\<newline>\<newline>b'' ''k'' None None False False False \<lparr>service_state = 0, sent = []\<rparr>)))
   \<and> req_url (sent (snd (publish_prompt_in_folder fails_then_succeeds 7 ''n''
         ''a\<newline>\<newline>b'' ''k'' None None False False False \<lparr>service_state = 0, sent = []\<rparr>)) ! 1)
       = ''https://api.promptlayer.com/rest/prompt-templates''"
proof -
  let ?p = "publish_prompt_in_folder fails_then_succeeds 7 ''n''
         ''a\<newline>\<newline>b'' ''k'' None None False False False \<lparr>service_state = 0, sent = []\<rparr>"
  have l: "1 < length (sent (snd ?p))"
    by (simp add: publish_sent planned_requests_def Let_def fails_then_succeeds_def
          attempt_failed_def ok_status_def)
  from rest_attempt_body[where srv = fails_then_succeeds
          and w = "\<lparr>service_state = 0, sent = []\<rparr>" and folder_id = 7
          and prompt_name = "''n''" and api_key = "''k''" and commit_message = None
          and metadata = None and content_text = "''a\<newline>\<newline>b''" and debug = False
          and force_legacy = False] l
  have "req_url (sent (snd ?p) ! 1) = API_BASE_LEGACY @ ''/rest/prompt-templates''"
    by (simp add: Let_def)
  with l show ?thesis by (simp add: API_BASE_LEGACY_def)
qed

text \<open>
  C8, as stated, fails. The claim: the messages in the envelope keep their segments. For
  the document of the two paragraphs \<open>a\<close> and \<open>b\<close> the system message is built with two
  segments, and in the envelope of the second request it has one, \<open>a\<close> and \<open>b\<close> joined
  by a blank line.
\<close>

theorem rest_attempt_body_counterexample:
  "map content (build_messages ''a\<newline>\<newline>b'') =
     [[''a'', ''b''],
      [''CURRENT PROVIDER QUESTION:'', ''{{ provider_question }}''],
      [''Understood. I will respond as the patient persona following these guidelines.'']]
   \<and> req_json (sent (snd (publish_prompt_in_folder fails_then_succeeds 7 ''n''
         ''a\<newline>\<newline>b'' ''k'' None None False False False \<lparr>service_state = 0, sent = []\<rparr>)) ! 1)
       = Some (rest_body 7 ''n'' None None (build_messages ''a\<newline>\<newline>b''))
   \<and> rest_body 7 ''n'' None None (build_messages ''a\<newline>\<newline>b'') =
       JDict [(''prompt_template'',
               JDict [(''prompt_name'', JStr ''n''), (''folder_id'', JInt 7),
                 (''prompt_template'',
                  JDict [(''type'', JStr ''chat''),
                    (''messages'',
                     JList [JDict [(''role'', JStr ''system''),
                                   (''template_format'', JStr ''jinja2''),
                                   (''input_variables'', JList [JStr ''provider_question'']),
                                   (''content'', JList [JDict [(''type'', JStr ''text''),
                                        (''text'', JStr ''a\<newline>\<newline>b'')]])],
                            JDict [(''role'', JStr ''user''),
                                   (''template_format'', JStr ''jinja2''),
                                   (''input_variables'', JList [JStr ''provider_question'']),
                                   (''content'', JList [JDict [(''type'', JStr ''text''),
                                        (''text'', JStr ''CURRENT PROVIDER QUESTION:\<newline>\<newline>{{ provider_question }}'')]])],
                            JDict [(''role'', JStr ''assistant''),
                                   (''template_format'', JStr ''jinja2''),
                                   (''input_variables'', JList [JStr ''provider_question'']),
                                   (''content'', JList [JDict [(''type'', JStr ''text''),
                                        (''text'', JStr ''Understood. I will respond as the patient persona following these guidelines.'')]])]]),
                    (''input_variables'', JList []),
                    (''dataset_examples'', JList [])])]),
              (''prompt_version'',
               JDict [(''prompt_name'', JStr ''n''), (''folder_id'', JInt 7),
                 (''prompt_template'',
                  JDict [(''type'', JStr ''chat''),
                    (''messages'',
                     JList [JDict [(''role'', JStr ''system''),
                                   (''template_format'', JStr ''jinja2''),
                                   (''input_variables'', JList [JStr ''provider_question'']),
                                   (''content'', JList [JDict [(''type'', JStr ''text''),
                                        (''text'', JStr ''a\<newline>\<newline>b'')]])],
                            JDict [(''role'', JStr ''user''),
                                   (''template_format'', JStr ''jinja2''),
                                   (''input_variables'', JList [JStr ''provider_question'']),
                                   (''content'', JList [JDict [(''type'', JStr ''text''),
                                        (''text'', JStr ''CURRENT PROVIDER QUESTION:\<newline>\<newline>{{ provider_question }}'')]])],
                            JDict [(''role'', JStr ''assistant''),
                                   (''template_format'', JStr ''jinja2''),
                                   (''input_variables'', JList [JStr ''provider_question'']),
                                   (''content'', JList [JDict [(''type'', JStr ''text''),
                                        (''text'', JStr ''Understood. I will respond as the patient persona following these guidelines.'')]])]]),
                    (''input_variables'', JList []),
                    (''dataset_examples'', JList [])])])]"
proof -
  have a: "map content (build_messages ''a\<newline>\<newline>b'') =
     [[''a'', ''b''],
      [''CURRENT PROVIDER QUESTION:'', ''{{ provider_question }}''],
      [''Understood. I will respond as the patient persona following these guidelines.'']]"
    by code_simp
  have b: "req_json (sent (snd (publish_prompt_in_folder fails_then_succeeds 7 ''n''
         ''a\<newline>\<newline>b'' ''k'' None None False False False \<lparr>service_state = 0, sent = []\<rparr>)) ! 1)
       = Some (rest_body 7 ''n'' None None (build_messages ''a\<newline>\<newline>b''))"
    by (simp add: publish_sent planned_requests_def Let_def fails_then_succeeds_def
          attempt_failed_def ok_status_def request_rest_def post_request_def)
  have c: "rest_body 7 ''n'' None None (build_messages ''a\<newline>\<newline>b'') = JDict [(''prompt_template'',
               JDict [(''prompt_name'', JStr ''n''), (''folder_id'', JInt 7),
                 (''prompt_template'',
                  JDict [(''type'', JStr ''chat''),
                    (''messages'',
                     JList [JDict [(''role'', JStr ''system''),
                                   (''template_format'', JStr ''jinja2''),
                                   (''input_variables'', JList [JStr ''provider_question'']),
                                   (''content'', JList [JDict [(''type'', JStr ''text''),
                                        (''text'', JStr ''a\<newline>\<newline>b'')]])],
                            JDict [(''role'', JStr ''user''),
                                   (''template_format'', JStr ''jinja2''),
                                   (''input_variables'', JList [JStr ''provider_question'']),
                                   (''content'', JList [JDict [(''type'', JStr ''text''),
                                        (''text'', JStr ''CURRENT PROVIDER QUESTION:\<newline>\<newline>{{ provider_question }}'')]])],
                            JDict [(''role'', JStr ''assistant''),
                                   (''template_format'', JStr ''jinja2''),
                                   (''input_variables'', JList [JStr ''provider_question'']),
                                   (''content'', JList [JDict [(''type'', JStr ''text''),
                                        (''text'', JStr ''Understood. I will respond as the patient persona following these guidelines.'')]])]]),
                    (''input_variables'', JList []),
                    (''dataset_examples'', JList [])])]),
              (''prompt_version'',
               JDict [(''prompt_name'', JStr ''n''), (''folder_id'', JInt 7),
                 (''prompt_template'',
                  JDict [(''type'', JStr ''chat''),
                    (''messages'',
                     JList [JDict [(''role'', JStr ''system''),
                                   (''template_format'', JStr ''jinja2''),
                                   (''input_variables'', JList [JStr ''provider_question'']),
                                   (''content'', JList [JDict [(''type'', JStr ''text''),
                                        (''text'', JStr ''a\<newline>\<newline>b'')]])],
                            JDict [(''role'', JStr ''user''),
                                   (''template_format'', JStr ''jinja2''),
                                   (''input_variables'', JList [JStr ''provider_question'']),
                                   (''content'', JList [JDict [(''type'', JStr ''text''),
                                        (''text'', JStr ''CURRENT PROVIDER QUESTION:\<newline>\<newline>{{ provider_question }}'')]])],
                            JDict [(''role'', JStr ''assistant''),
                                   (''template_format'', JStr ''jinja2''),
                                   (''input_variables'', JList [JStr ''provider_question'']),
                                   (''content'', JList [JDict [(''type'', JStr ''text''),
                                        (''text'', JStr ''Understood. I will respond as the patient persona following these guidelines.'')]])]]),
                    (''input_variables'', JList []),
                    (''dataset_examples'', JList [])])])]"
    by code_simp
  from a b c show ?thesis by blast
qed

section \<open>Properties of the folder resolver\<close>








section \<open>The claims about the folder resolver\<close>




end
